theory Spec2Isabelle
  imports Main "HOL-Library.Word" "HOL-Library.Sublist" "HOL-Library.Monad_Syntax"
begin

section \<open>Strings\<close>

text \<open>
  Go strings are byte sequences; \<open>strings.Contains s sub\<close> holds when \<open>sub\<close>
  occurs in \<open>s\<close> as a contiguous run of bytes (the empty string occurs everywhere).
\<close>

fun strContains :: "string \<Rightarrow> string \<Rightarrow> bool" where
  "strContains [] sub = (sub = [])"
| "strContains (c # cs) sub = (prefix sub (c # cs) \<or> strContains cs sub)"

text \<open>
  \<open>strings.Replace s old new (-1)\<close> for a non-empty \<open>old\<close>: every
  non-overlapping occurrence of \<open>old\<close>, found from the left, is replaced by
  \<open>new\<close>. \<open>ConvertLayout\<close> only calls it with the eight non-empty patterns
  below, so the equations are given for a non-empty pattern.
\<close>

fun replaceAll :: "string \<Rightarrow> string \<Rightarrow> string \<Rightarrow> string" where
  "replaceAll (p # ps) new [] = []"
| "replaceAll (p # ps) new (c # cs) =
     (if prefix (p # ps) (c # cs)
      then new @ replaceAll (p # ps) new (drop (length ps) cs)
      else c # replaceAll (p # ps) new cs)"

text \<open>\<open>ConvertLayout\<close> (xlsx.go, lines 369-381): eight replacements, in this order.\<close>

definition ConvertLayout :: "string \<Rightarrow> string" where
  "ConvertLayout layout =
     (let lo = layout;
          lo = replaceAll ''yyyy'' ''2006'' lo;
          lo = replaceAll ''yy'' ''06'' lo;
          lo = replaceAll ''MM'' ''01'' lo;
          lo = replaceAll ''dd'' ''02'' lo;
          lo = replaceAll ''HH'' ''15'' lo;
          lo = replaceAll ''mm'' ''04'' lo;
          lo = replaceAll ''ss'' ''05'' lo;
          lo = replaceAll ''SSS'' ''000'' lo
      in lo)"

section \<open>Record types and values, as the reflection API shows them\<close>

text \<open>
  A struct tag is read with \<open>Tag.Get key\<close>: the value of the first entry for the
  key, the empty string when there is none.
\<close>

type_synonym structTag = "(string \<times> string) list"

definition tagGet :: "structTag \<Rightarrow> string \<Rightarrow> string" where
  "tagGet tag key = (case map_of tag key of None \<Rightarrow> [] | Some v \<Rightarrow> v)"

text \<open>
  \<open>reflect.StructField\<close>, with the parts the code reads: the name, \<open>PkgPath\<close>
  (empty exactly for an exported field), whether the field's type is the marker
  interface \<open>T\<close> (\<open>f.Type == ttype\<close>), the tag, and \<open>Index\<close> (the position of
  the field in its struct, as \<open>Type.Field i\<close> fills it in).
\<close>

record StructField =
  fname :: string
  pkgPath :: string
  isT :: bool
  ftag :: structTag
  findex :: nat

datatype rtype = StructT "StructField list" | PtrT rtype | SliceT rtype | OtherT

text \<open>
  The value of one struct field as the type switch of \<open>setCellValue\<close> sees it:
  a \<open>time.Time\<close>; one of the ten integer types (only the number matters, every
  case is \<open>float64(fv)\<close>); a \<open>float32\<close> or \<open>float64\<close>, given as the
  \<open>float64\<close> it widens to (every \<open>float32\<close> is a \<open>float64\<close>); a
  \<open>string\<close>; or a value of any other type. Instants and \<open>float64\<close> values are
  the type parameters \<open>'t\<close> and \<open>'f\<close>.
\<close>

datatype ('f, 't) fval = TimeV 't | IntV int | FloatV 'f | StringV string | OtherV

text \<open>
  \<open>reflect.Value\<close> of the argument of \<open>Write\<close>: a struct (its fields with
  their values, in declaration order), a pointer to a value, or a slice (its element
  type and its elements).
\<close>

datatype ('f, 't) rvalue =
    StructV "(StructField \<times> ('f, 't) fval) list"
  | PtrV "('f, 't) rvalue"
  | SliceV rtype "('f, 't) rvalue list"

fun typeOf :: "('f, 't) rvalue \<Rightarrow> rtype" where
  "typeOf (StructV fvs) = StructT (map fst fvs)"
| "typeOf (PtrV v) = PtrT (typeOf v)"
| "typeOf (SliceV t vs) = SliceT t"

text \<open>A slice is well formed when every element has the element type.\<close>

fun wellTyped :: "('f, 't) rvalue \<Rightarrow> bool" where
  "wellTyped (StructV fvs) = True"
| "wellTyped (PtrV v) = wellTyped v"
| "wellTyped (SliceV t vs) = list_all (\<lambda>v. typeOf v = t \<and> wellTyped v) vs"

text \<open>
  \<open>Type.NumField\<close> and \<open>Type.Field\<close> panic on a type that is not a struct, and
  \<open>Value.FieldByIndex\<close> with a one-element index is \<open>Value.Field\<close>, which
  panics on a value that is not a struct (a pointer too) and on an index out of range.
  A panic is the result \<open>None\<close>.
\<close>

fun structFields :: "rtype \<Rightarrow> StructField list option" where
  "structFields (StructT fs) = Some (map (\<lambda>(i, f). f\<lparr>findex := i\<rparr>) (enumerate 0 fs))"
| "structFields _ = None"

fun FieldByIndex :: "('f, 't) rvalue \<Rightarrow> nat \<Rightarrow> ('f, 't) fval option" where
  "FieldByIndex (StructV fvs) i = (if i < length fvs then Some (snd (fvs ! i)) else None)"
| "FieldByIndex _ i = None"

section \<open>The spreadsheet document\<close>

text \<open>
  Modelled from the spec: the document model of the spreadsheet library the code calls
  (workbook, sheet, row, cell, style sheet) is not part of the repository. Section 6 of
  the specification lists the capability the core consumes: enumerate sheets by name,
  add and rename a sheet; enumerate the rows of a sheet, fetch a row by its 1-based
  number, append a row; enumerate the cells of a row, fetch a cell by column letter,
  append a cell; read a cell's text, write text, a number or a date-time, read and write
  a style reference, resolve a cell's column letter; look a style up and test it for
  emptiness. The definitions of this section give that capability a state.

  What the library computes by rules of its own is a parameter, collected in the record
  \<open>platform\<close>: \<open>time.Time.Format\<close>, the conversion of an integer to
  \<open>float64\<close>, the text that reading a number or date-time cell as a string gives,
  the letter of the n-th column and the name of the n-th added sheet.
\<close>

datatype ('f, 't) cellval = CUnset | CString string | CNumber 'f | CTime 't

record ('f, 't) platform =
  timeFormat :: "'t \<Rightarrow> string \<Rightarrow> string"
  intToFloat64 :: "int \<Rightarrow> 'f"
  rawText :: "('f, 't) cellval \<Rightarrow> string"
  columnName :: "nat \<Rightarrow> string"
  defaultSheetName :: "nat \<Rightarrow> string"

text \<open>
  Modelled from the spec: a cell of the library (section 6: read text, write text, number
  or date-time, read and write a style reference, resolve the column letter). It holds
  the column letter that \<open>Column()\<close> resolves from its reference
  (\<open>None\<close> when the reference is missing or does not parse, the error case of
  \<open>Column()\<close>), its value, and its style reference (\<open>SAttr\<close>, absent or an
  index into the style sheet).
\<close>

record ('f, 't) cell =
  ccol :: "string option"
  cval :: "('f, 't) cellval"
  cstyle :: "nat option"

text \<open>
  Modelled from the spec: a row and a sheet of the library. A row has an identity (the Go
  code holds rows by pointer: \<open>templateRows\<close> and the row being written may be the
  same object), its 1-based row number (a \<open>uint32\<close>) and its cells; a sheet has a
  name and its rows, in the order of the row collection. \<open>GetString\<close> reads the
  text of a cell: the string of a text cell, the empty string of an empty cell.
\<close>

record ('f, 't) row =
  rid :: nat
  rnum :: "32 word"
  rcells :: "('f, 't) cell list"

record ('f, 't) sheet =
  sname :: string
  srows :: "('f, 't) row list"

definition GetString :: "('f, 't) platform \<Rightarrow> ('f, 't) cell \<Rightarrow> string" where
  "GetString P c =
     (case cval c of CUnset \<Rightarrow> [] | CString s \<Rightarrow> s | v \<Rightarrow> rawText P v)"

definition newCell :: "string option \<Rightarrow> ('f, 't) cell" where
  "newCell col = \<lparr>ccol = col, cval = CUnset, cstyle = None\<rparr>"

text \<open>
  Modelled from the spec: \<open>Row.Cell col\<close> (section 6: fetch a cell by column letter)
  fetches the cell of a column and adds an empty one when the row has none: \<open>ensureCell\<close> is its effect on the row, \<open>rowCell\<close> the cell it
  returns, and \<open>modCell\<close> an update made through the returned cell.
\<close>

definition ensureCell :: "string \<Rightarrow> ('f, 't) row \<Rightarrow> ('f, 't) row" where
  "ensureCell col r =
     (if list_ex (\<lambda>c. ccol c = Some col) (rcells r) then r
      else r\<lparr>rcells := rcells r @ [newCell (Some col)]\<rparr>)"

definition rowCell :: "string \<Rightarrow> ('f, 't) row \<Rightarrow> ('f, 't) cell" where
  "rowCell col r =
     (case find (\<lambda>c. ccol c = Some col) (rcells r) of
        Some c \<Rightarrow> c | None \<Rightarrow> newCell (Some col))"

fun updFirst :: "('a \<Rightarrow> bool) \<Rightarrow> ('a \<Rightarrow> 'a) \<Rightarrow> 'a list \<Rightarrow> 'a list" where
  "updFirst p f [] = []"
| "updFirst p f (x # xs) = (if p x then f x # xs else x # updFirst p f xs)"

definition modCell ::
  "string \<Rightarrow> (('f, 't) cell \<Rightarrow> ('f, 't) cell) \<Rightarrow> ('f, 't) row \<Rightarrow> ('f, 't) row" where
  "modCell col f r =
     (let r' = ensureCell col r
      in r'\<lparr>rcells := updFirst (\<lambda>c. ccol c = Some col) f (rcells r')\<rparr>)"

text \<open>
  Modelled from the spec: \<open>Row.AddCell\<close> (section 6: append a cell) appends a cell
  in the next column; \<open>addCellWith\<close> is the
  append together with an update made through the returned cell.
\<close>

definition addCellWith ::
  "('f, 't) platform \<Rightarrow> (('f, 't) cell \<Rightarrow> ('f, 't) cell) \<Rightarrow> ('f, 't) row \<Rightarrow> ('f, 't) row" where
  "addCellWith P f r =
     r\<lparr>rcells := rcells r @ [f (newCell (Some (columnName P (length (rcells r)))))]\<rparr>"

text \<open>
  A row object is reached through its identity: \<open>modRow\<close> is an update made
  through a row object, \<open>getRow\<close> reads it, and \<open>freshId\<close> is the identity
  of a row object that is new to the sheet.
\<close>

definition modRow ::
  "nat \<Rightarrow> (('f, 't) row \<Rightarrow> ('f, 't) row) \<Rightarrow> ('f, 't) sheet \<Rightarrow> ('f, 't) sheet" where
  "modRow i f sh = sh\<lparr>srows := map (\<lambda>r. if rid r = i then f r else r) (srows sh)\<rparr>"

definition getRow :: "nat \<Rightarrow> ('f, 't) sheet \<Rightarrow> ('f, 't) row option" where
  "getRow i sh = find (\<lambda>r. rid r = i) (srows sh)"

definition freshId :: "('f, 't) sheet \<Rightarrow> nat" where
  "freshId sh = Suc (fold max (map rid (srows sh)) 0)"

text \<open>
  Modelled from the spec: \<open>Sheet.AddRow\<close> (section 6: append a row) appends a row
  numbered one more than the largest row number of the sheet, and \<open>Sheet.Row\<close>
  fetches a row by its 1-based number. \<open>Sheet.Row num\<close> returns the first row with the number \<open>num\<close>; when
  there is none it adds a row with that number and keeps the rows sorted by number.
  Both return the row object (here its identity) with the sheet.
\<close>

definition AddRow :: "('f, 't) sheet \<Rightarrow> ('f, 't) sheet \<times> nat" where
  "AddRow sh =
     (let i = freshId sh;
          n = fold max (map rnum (srows sh)) 0 + 1
      in (sh\<lparr>srows := srows sh @ [\<lparr>rid = i, rnum = n, rcells = []\<rparr>]\<rparr>, i))"

definition sheetRow :: "32 word \<Rightarrow> ('f, 't) sheet \<Rightarrow> ('f, 't) sheet \<times> nat" where
  "sheetRow num sh =
     (case find (\<lambda>r. rnum r = num) (srows sh) of
        Some r \<Rightarrow> (sh, rid r)
      | None \<Rightarrow>
          (let i = freshId sh
           in (sh\<lparr>srows := sort_key rnum (srows sh @ [\<lparr>rid = i, rnum = num, rcells = []\<rparr>])\<rparr>,
               i)))"

text \<open>
  Modelled from the spec: writing a cell (section 6). \<open>SetString\<close>,
  \<open>SetNumber\<close> and \<open>SetTime\<close> replace the value, \<open>SetStyle\<close> the style
  reference.
\<close>

definition SetString :: "string \<Rightarrow> ('f, 't) cell \<Rightarrow> ('f, 't) cell" where
  "SetString s c = c\<lparr>cval := CString s\<rparr>"

definition SetNumber :: "'f \<Rightarrow> ('f, 't) cell \<Rightarrow> ('f, 't) cell" where
  "SetNumber v c = c\<lparr>cval := CNumber v\<rparr>"

definition SetTime :: "'t \<Rightarrow> ('f, 't) cell \<Rightarrow> ('f, 't) cell" where
  "SetTime d c = c\<lparr>cval := CTime d\<rparr>"

definition SetStyle :: "nat \<Rightarrow> ('f, 't) cell \<Rightarrow> ('f, 't) cell" where
  "SetStyle sid c = c\<lparr>cstyle := Some sid\<rparr>"

section \<open>The writer\<close>

text \<open>
  \<open>Xlsx\<close> (xlsx.go, lines 16-21): the workbook (its sheets, and the identifiers of
  the cell styles its style sheet defines: \<open>GetCellStyle\<close> gives an empty style for
  any other identifier), the current sheet (a sheet of the workbook, here its
  position), \<open>option.TemplateFile\<close> and the counter \<open>rowsWritten\<close>.
\<close>

record ('f, 't) xlsx =
  workbook :: "('f, 't) sheet list"
  styleSheet :: "nat list"
  currentSheet :: nat
  templateFile :: string
  rowsWritten :: int

definition hasTemplate :: "('f, 't) xlsx \<Rightarrow> bool" where
  "hasTemplate x = (templateFile x \<noteq> [])"

text \<open>
  \<open>New\<close> (lines 26-44), for the template file name the options set and the result
  of opening it (\<open>None\<close> when \<open>spreadsheet.Open\<close> fails): a workbook that did not
  open is replaced by an empty one.
\<close>

definition New :: "string \<Rightarrow> (('f, 't) sheet list \<times> nat list) option \<Rightarrow> ('f, 't) xlsx" where
  "New t opened =
     (case (if t \<noteq> [] then opened else None) of
        Some (shs, sty) \<Rightarrow>
          \<lparr>workbook = shs, styleSheet = sty, currentSheet = 0, templateFile = t, rowsWritten = 0\<rparr>
      | None \<Rightarrow>
          \<lparr>workbook = [], styleSheet = [], currentSheet = 0, templateFile = t, rowsWritten = 0\<rparr>)"

text \<open>
  The current sheet is held by reference: \<open>curSheet\<close> reads the sheet object and
  \<open>setCurSheet\<close> is an update made through it.
\<close>

definition curSheet :: "('f, 't) xlsx \<Rightarrow> ('f, 't) sheet" where
  "curSheet x = workbook x ! currentSheet x"

definition setCurSheet :: "('f, 't) sheet \<Rightarrow> ('f, 't) xlsx \<Rightarrow> ('f, 't) xlsx" where
  "setCurSheet sh x = x\<lparr>workbook := (workbook x)[currentSheet x := sh]\<rparr>"

text \<open>
  \<open>foldOpt\<close> runs a loop over a list whose body may panic (\<open>None\<close>), threading
  the state; \<open>findIndex\<close> is the index of the first element with a property.
\<close>

fun foldOpt :: "('a \<Rightarrow> 's \<Rightarrow> 's option) \<Rightarrow> 'a list \<Rightarrow> 's \<Rightarrow> 's option" where
  "foldOpt f [] s = Some s"
| "foldOpt f (a # as) s = (case f a s of None \<Rightarrow> None | Some s' \<Rightarrow> foldOpt f as s')"

fun findIndex :: "('a \<Rightarrow> bool) \<Rightarrow> 'a list \<Rightarrow> nat option" where
  "findIndex p [] = None"
| "findIndex p (x # xs) = (if p x then Some 0 else map_option Suc (findIndex p xs))"

text \<open>
  Modelled from the spec: \<open>Workbook.AddSheet\<close> and \<open>Sheet.SetName\<close> of the
  library (section 6: add a new sheet, rename a sheet). The new sheet is the last sheet
  of the workbook and has no rows.
\<close>

definition AddSheet :: "('f, 't) platform \<Rightarrow> ('f, 't) xlsx \<Rightarrow> ('f, 't) xlsx \<times> nat" where
  "AddSheet P x =
     (let n = length (workbook x)
      in (x\<lparr>workbook := workbook x @ [\<lparr>sname = defaultSheetName P (Suc n), srows = []\<rparr>]\<rparr>, n))"

definition SetName :: "nat \<Rightarrow> string \<Rightarrow> ('f, 't) xlsx \<Rightarrow> ('f, 't) xlsx" where
  "SetName i name x = x\<lparr>workbook := (workbook x)[i := (workbook x ! i)\<lparr>sname := name\<rparr>]\<rparr>"

text \<open>
  \<open>createSheet\<close> (lines 121-146). With a template, the first sheet with the tagged
  name is returned as it is; failing that the first sheet of the workbook. Without a
  template, or in an empty workbook, a sheet is added. The chosen sheet is renamed
  when the tag names a sheet and the sheet's name does not contain that name.
\<close>

definition createSheet ::
  "('f, 't) platform \<Rightarrow> ('f, 't) xlsx \<Rightarrow> structTag \<Rightarrow> ('f, 't) xlsx \<times> nat" where
  "createSheet P x ttag =
     (let sheetName = tagGet ttag ''sheet''
      in case (if hasTemplate x then findIndex (\<lambda>sh. sname sh = sheetName) (workbook x) else None) of
           Some i \<Rightarrow> (x, i)
         | None \<Rightarrow>
             (let (x1, i) = (if hasTemplate x \<and> length (workbook x) > 0 then (x, 0) else AddSheet P x)
              in if sheetName \<noteq> [] \<and> \<not> strContains (sname (workbook x1 ! i)) sheetName
                 then (SetName i sheetName x1, i) else (x1, i)))"

text \<open>\<open>collectTitles\<close> (lines 148-163).\<close>

definition collectTitles :: "StructField list \<Rightarrow> string list \<times> bool" where
  "collectTitles flds =
     (map (\<lambda>f. if tagGet (ftag f) ''title'' \<noteq> [] then tagGet (ftag f) ''title'' else fname f) flds,
      list_ex (\<lambda>f. tagGet (ftag f) ''title'' \<noteq> []) flds)"

text \<open>\<open>collectExportableFields\<close> (lines 165-179) and \<open>findTTag\<close> (lines 181-189).\<close>

definition collectExportableFields :: "rtype \<Rightarrow> StructField list option" where
  "collectExportableFields t =
     map_option (filter (\<lambda>f. \<not> (pkgPath f \<noteq> [] \<or> isT f))) (structFields t)"

definition findTTag :: "rtype \<Rightarrow> structTag option" where
  "findTTag t =
     map_option (\<lambda>fs. case find isT fs of Some f \<Rightarrow> ftag f | None \<Rightarrow> []) (structFields t)"

text \<open>
  \<open>convertToFloat64\<close> (lines 383-412) and \<open>setCellValue\<close> (lines 204-219). The
  cell is passed by reference: the result of \<open>setCellValue\<close> is the update it makes
  to that cell, and \<open>None\<close> when \<open>FieldByIndex\<close> panics.
\<close>

definition convertToFloat64 :: "('f, 't) platform \<Rightarrow> ('f, 't) fval \<Rightarrow> 'f" where
  "convertToFloat64 P v =
     (case v of IntV n \<Rightarrow> intToFloat64 P n | FloatV d \<Rightarrow> d | _ \<Rightarrow> intToFloat64 P 0)"

definition setCellValue ::
  "('f, 't) platform \<Rightarrow> StructField \<Rightarrow> ('f, 't) rvalue \<Rightarrow> (('f, 't) cell \<Rightarrow> ('f, 't) cell) option" where
  "setCellValue P field value =
     (case FieldByIndex value (findex field) of
        None \<Rightarrow> None
      | Some v \<Rightarrow>
          Some (case v of
                  TimeV fv \<Rightarrow>
                    (let format = tagGet (ftag field) ''format''
                     in if format \<noteq> [] then SetString (timeFormat P fv (ConvertLayout format))
                        else SetTime fv)
                | IntV n \<Rightarrow> SetNumber (convertToFloat64 P v)
                | FloatV d \<Rightarrow> SetNumber (convertToFloat64 P v)
                | StringV fv \<Rightarrow> SetString fv
                | OtherV \<Rightarrow> (\<lambda>c. c)))"

text \<open>\<open>writeRow\<close> (lines 196-202) and \<open>writeTitles\<close> (lines 221-228).\<close>

definition writeRow ::
  "('f, 't) platform \<Rightarrow> StructField list \<Rightarrow> ('f, 't) rvalue \<Rightarrow> ('f, 't) xlsx \<Rightarrow> ('f, 't) xlsx option" where
  "writeRow P flds value x =
     (let (sh, i) = AddRow (curSheet x)
      in map_option (\<lambda>sh'. setCurSheet sh' x)
           (foldOpt (\<lambda>field sh'. map_option (\<lambda>upd. modRow i (addCellWith P upd) sh')
                                    (setCellValue P field value))
              flds sh))"

definition writeTitles ::
  "('f, 't) platform \<Rightarrow> StructField list \<Rightarrow> string list \<Rightarrow> ('f, 't) xlsx \<Rightarrow> ('f, 't) xlsx option" where
  "writeTitles P flds titles x =
     (let (sh, i) = AddRow (curSheet x)
      in map_option (\<lambda>sh'. setCurSheet sh' x)
           (foldOpt (\<lambda>k sh'. if k < length titles
                              then Some (modRow i (addCellWith P (SetString (titles ! k))) sh')
                              else None)
              [0 ..< length flds] sh))"

subsection \<open>Locating the template\<close>

text \<open>
  \<open>templateCell\<close> and \<open>templateLocation\<close> (lines 230-244). \<open>templateRows\<close>
  holds row objects of the sheet, here their identities.
\<close>

record templateCell =
  cellColumn :: string
  structField :: StructField

record templateLocation =
  titledRowIndex :: int
  rowsEndIndex :: int
  templateCells :: "templateCell list"
  templateRows :: "nat list"

definition isValid :: "templateLocation \<Rightarrow> bool" where
  "isValid t = (length (templateCells t) > 0)"

text \<open>
  \<open>findTemplateTitledRow\<close> (lines 263-299), one function for each of its three
  nested loops. \<open>matchTitles\<close> is the loop over the titles for one cell, from the
  title with index \<open>i\<close> on: \<open>Some (Some tc)\<close> is the entry it appends before its
  \<open>break\<close>, \<open>Some None\<close> is the loop running to its end, \<open>None\<close> the panic of
  \<open>fields[i]\<close> out of range. \<open>scanCells\<close> is the loop over the cells of a row
  and \<open>scanRows\<close> the loop over the rows from row index \<open>rowIndex\<close> on.
\<close>

fun matchTitles ::
  "string \<Rightarrow> string option \<Rightarrow> StructField list \<Rightarrow> nat \<Rightarrow> string list \<Rightarrow> templateCell option option" where
  "matchTitles cellString col flds i [] = Some None"
| "matchTitles cellString col flds i (title # titles) =
     (if \<not> strContains cellString title then matchTitles cellString col flds (Suc i) titles
      else case col of
             None \<Rightarrow> matchTitles cellString col flds (Suc i) titles
           | Some c \<Rightarrow>
               if i < length flds then Some (Some \<lparr>cellColumn = c, structField = flds ! i\<rparr>)
               else None)"

fun scanCells ::
  "('f, 't) platform \<Rightarrow> StructField list \<Rightarrow> string list \<Rightarrow> ('f, 't) cell list \<Rightarrow>
     templateCell list \<Rightarrow> templateCell list option" where
  "scanCells P flds titles [] tcs = Some tcs"
| "scanCells P flds titles (c # cs) tcs =
     (case matchTitles (GetString P c) (ccol c) flds 0 titles of
        None \<Rightarrow> None
      | Some None \<Rightarrow> scanCells P flds titles cs tcs
      | Some (Some tc) \<Rightarrow> scanCells P flds titles cs (tcs @ [tc]))"

fun scanRows ::
  "('f, 't) platform \<Rightarrow> StructField list \<Rightarrow> string list \<Rightarrow> int \<Rightarrow> ('f, 't) row list \<Rightarrow>
     templateCell list \<Rightarrow> (int \<times> templateCell list) option" where
  "scanRows P flds titles rowIndex [] tcs = Some (- 1, tcs)"
| "scanRows P flds titles rowIndex (r # rs) tcs =
     (case scanCells P flds titles (rcells r) tcs of
        None \<Rightarrow> None
      | Some tcs' \<Rightarrow>
          if length tcs' > 0 then Some (rowIndex, tcs')
          else scanRows P flds titles (rowIndex + 1) rs tcs')"

definition findTemplateTitledRow ::
  "('f, 't) platform \<Rightarrow> StructField list \<Rightarrow> string list \<Rightarrow> ('f, 't) row list \<Rightarrow>
     (int \<times> templateCell list) option" where
  "findTemplateTitledRow P flds titles rows = scanRows P flds titles 0 rows []"

text \<open>
  \<open>findTemplateRows\<close> (lines 301-320). \<open>rows[i].Cell(col)\<close> adds an empty cell to
  a row that has none in the column, so the scan returns the rows as it leaves them
  together with the template rows. \<open>collectTemplateRows\<close> is the loop over the rows
  below the title row, with the template rows found so far.
\<close>

definition carriesMarker :: "('f, 't) platform \<Rightarrow> string \<Rightarrow> ('f, 't) row \<Rightarrow> bool" where
  "carriesMarker P col r = strContains (GetString P (rowCell col r)) ''template''"

fun collectTemplateRows ::
  "('f, 't) platform \<Rightarrow> string \<Rightarrow> ('f, 't) row list \<Rightarrow> nat list \<Rightarrow> ('f, 't) row list \<times> nat list" where
  "collectTemplateRows P col [] trs = ([], trs)"
| "collectTemplateRows P col (r # rs) trs =
     (let r' = ensureCell col r
      in if carriesMarker P col r'
         then (let (rs', trs') = collectTemplateRows P col rs (trs @ [rid r']) in (r' # rs', trs'))
         else if length trs = 0 then (r' # rs, trs @ [rid r'])
         else (let (rs', trs') = collectTemplateRows P col rs trs in (r' # rs', trs')))"

definition findTemplateRows ::
  "('f, 't) platform \<Rightarrow> int \<Rightarrow> templateCell list \<Rightarrow> ('f, 't) row list \<Rightarrow>
     (('f, 't) row list \<times> nat list) option" where
  "findTemplateRows P titledRowIdx tcs rows =
     (if titledRowIdx < 0 then Some (rows, [])
      else case tcs of
             [] \<Rightarrow> None
           | tc # _ \<Rightarrow>
               (let (rs', trs) = collectTemplateRows P (cellColumn tc)
                                   (drop (nat (titledRowIdx + 1)) rows) []
                in Some (take (nat (titledRowIdx + 1)) rows @ rs', trs)))"

text \<open>\<open>locateTitles\<close> (lines 246-261).\<close>

definition locateTitles ::
  "('f, 't) platform \<Rightarrow> ('f, 't) xlsx \<Rightarrow> StructField list \<Rightarrow> string list \<Rightarrow>
     (('f, 't) xlsx \<times> templateLocation) option" where
  "locateTitles P x flds titles =
     (if \<not> hasTemplate x
      then Some (x, \<lparr>titledRowIndex = 0, rowsEndIndex = 0, templateCells = [], templateRows = []\<rparr>)
      else
        (let rows = srows (curSheet x)
         in case findTemplateTitledRow P flds titles rows of
              None \<Rightarrow> None
            | Some (titledRowIdx, tcs) \<Rightarrow>
                (case findTemplateRows P titledRowIdx tcs rows of
                   None \<Rightarrow> None
                 | Some (rows', trs) \<Rightarrow>
                     Some (setCurSheet ((curSheet x)\<lparr>srows := rows'\<rparr>) x,
                           \<lparr>titledRowIndex = titledRowIdx, rowsEndIndex = int (length rows),
                            templateCells = tcs, templateRows = trs\<rparr>))))"

subsection \<open>Writing into the template\<close>

text \<open>
  \<open>copyRowStyle\<close> (lines 335-349). \<open>exemplarIndex\<close> is its guard and the index
  of the template row it picks; \<open>copyCellStyle\<close> is the body of its loop for one
  template cell: \<open>templateRow.Cell(col)\<close> adds the cell to the template row when it
  is missing, and the style is set only when the cell has a style reference that the
  style sheet does not resolve to an empty style. Where the index is computed
  \<open>rowsWritten\<close> is at least the number of template rows, which is positive, so
  \<open>rowsWritten - 1\<close> is not negative and Go's remainder is \<open>mod\<close>.
\<close>

definition exemplarIndex :: "templateLocation \<Rightarrow> int \<Rightarrow> nat option" where
  "exemplarIndex l written =
     (if length (templateRows l) = 0 \<or> written < int (length (templateRows l)) then None
      else Some (nat ((written - 1) mod int (length (templateRows l)))))"

definition copyCellStyle ::
  "nat list \<Rightarrow> nat \<Rightarrow> nat \<Rightarrow> string \<Rightarrow> ('f, 't) sheet \<Rightarrow> ('f, 't) sheet" where
  "copyCellStyle styles templateRow i col sh =
     (let sh1 = modRow templateRow (ensureCell col) sh
      in case getRow templateRow sh1 of
           None \<Rightarrow> sh1
         | Some tr \<Rightarrow>
             (case cstyle (rowCell col tr) of
                None \<Rightarrow> sh1
              | Some sid \<Rightarrow>
                  if sid \<in> set styles then modRow i (modCell col (SetStyle sid)) sh1 else sh1))"

definition copyRowStyle :: "templateLocation \<Rightarrow> nat \<Rightarrow> ('f, 't) xlsx \<Rightarrow> ('f, 't) xlsx" where
  "copyRowStyle l i x =
     (case exemplarIndex l (rowsWritten x) of
        None \<Rightarrow> x
      | Some k \<Rightarrow>
          setCurSheet
            (fold (\<lambda>tc. copyCellStyle (styleSheet x) (templateRows l ! k) i (cellColumn tc))
               (templateCells l) (curSheet x))
            x)"

text \<open>
  \<open>writeTemplateRow\<close> (lines 322-333). \<open>templateRowNum\<close> is the row number of
  line 324, with its conversion to \<open>uint32\<close>.
\<close>

definition templateRowNum :: "templateLocation \<Rightarrow> int \<Rightarrow> 32 word" where
  "templateRowNum l written = word_of_int (titledRowIndex l + 2 + written)"

definition writeTemplateRow ::
  "('f, 't) platform \<Rightarrow> templateLocation \<Rightarrow> ('f, 't) rvalue \<Rightarrow> ('f, 't) xlsx \<Rightarrow> ('f, 't) xlsx option" where
  "writeTemplateRow P l v x =
     (let num = templateRowNum l (rowsWritten x);
          x1 = x\<lparr>rowsWritten := rowsWritten x + 1\<rparr>;
          (sh, i) = sheetRow num (curSheet x1)
      in case foldOpt (\<lambda>tc sh'. map_option (\<lambda>upd. modRow i (modCell (cellColumn tc) upd) sh')
                                   (setCellValue P (structField tc) v))
                (templateCells l) sh of
           None \<Rightarrow> None
         | Some sh' \<Rightarrow> Some (copyRowStyle l i (setCurSheet sh' x1)))"

text \<open>
  \<open>removeTempleRows\<close> (lines 351-362); \<open>rows[:endIndex]\<close> panics for a negative
  \<open>endIndex\<close>.
\<close>

definition removeTempleRows :: "templateLocation \<Rightarrow> ('f, 't) xlsx \<Rightarrow> ('f, 't) xlsx option" where
  "removeTempleRows l x =
     (if length (templateRows l) = 0 then Some x
      else
        (let rows = srows (curSheet x);
             endIndex = titledRowIndex l + 1 + rowsWritten x
         in if endIndex < int (length rows)
            then (if endIndex < 0 then None
                  else Some (setCurSheet ((curSheet x)\<lparr>srows := take (nat endIndex) rows\<rparr>) x))
            else Some x))"

subsection \<open>The write operation\<close>

text \<open>
  \<open>Write\<close> (lines 70-119), in three parts. \<open>beanStructType\<close> is the type the
  fields are read from (lines 71-81): the element type of a slice, and the pointed-to
  type of a pointer. \<open>beanValues\<close> are the values the row writers receive: the
  elements of a slice, or the argument itself. \<open>locate\<close> is lines 83-89: the
  sheet, the fields, the titles and the template location. \<open>wantsTitle\<close> is the
  decision of lines 90-92.
\<close>

definition beanStructType :: "('f, 't) rvalue \<Rightarrow> rtype" where
  "beanStructType beans =
     (let beanType = (case typeOf beans of SliceT t \<Rightarrow> t | t \<Rightarrow> t)
      in case beanType of PtrT t \<Rightarrow> t | t \<Rightarrow> t)"

definition beanValues :: "('f, 't) rvalue \<Rightarrow> ('f, 't) rvalue list" where
  "beanValues beans = (case beans of SliceV t vs \<Rightarrow> vs | v \<Rightarrow> [v])"

record ('f, 't) located =
  lx :: "('f, 't) xlsx"
  lttag :: structTag
  lfields :: "StructField list"
  ltitles :: "string list"
  lcustomized :: bool
  llocation :: templateLocation

definition locate ::
  "('f, 't) platform \<Rightarrow> ('f, 't) xlsx \<Rightarrow> ('f, 't) rvalue \<Rightarrow> ('f, 't) located option" where
  "locate P x beans =
     (case findTTag (beanStructType beans) of
        None \<Rightarrow> None
      | Some ttag \<Rightarrow>
          (let (x0, i) = createSheet P x ttag;
               x1 = x0\<lparr>currentSheet := i\<rparr>
           in case collectExportableFields (beanStructType beans) of
                None \<Rightarrow> None
              | Some flds \<Rightarrow>
                  (let (titles, customizedTitle) = collectTitles flds
                   in case locateTitles P x1 flds titles of
                        None \<Rightarrow> None
                      | Some (x2, location) \<Rightarrow>
                          Some \<lparr>lx = x2, lttag = ttag, lfields = flds, ltitles = titles,
                                lcustomized = customizedTitle, llocation = location\<rparr>)))"

definition wantsTitle :: "('f, 't) located \<Rightarrow> bool" where
  "wantsTitle loc =
     (let customizedTitle = lcustomized loc \<and> \<not> isValid (llocation loc)
      in customizedTitle \<or> tagGet (lttag loc) ''title'' \<noteq> [])"

definition Write ::
  "('f, 't) platform \<Rightarrow> ('f, 't) xlsx \<Rightarrow> ('f, 't) rvalue \<Rightarrow> ('f, 't) xlsx option" where
  "Write P x beans =
     (case locate P x beans of
        None \<Rightarrow> None
      | Some loc \<Rightarrow>
          (case (if wantsTitle loc then writeTitles P (lfields loc) (ltitles loc) (lx loc)
                 else Some (lx loc)) of
             None \<Rightarrow> None
           | Some x3 \<Rightarrow>
               if isValid (llocation loc)
               then (case foldOpt (writeTemplateRow P (llocation loc)) (beanValues beans)
                            (x3\<lparr>rowsWritten := 0\<rparr>) of
                       None \<Rightarrow> None
                     | Some x4 \<Rightarrow> removeTempleRows (llocation loc) x4)
               else foldOpt (writeRow P (lfields loc)) (beanValues beans) x3))"

section \<open>Notions used to state the properties\<close>

text \<open>
  A cell matches when its column resolves and its text contains one of the titles; the
  entry recorded for it pairs its column with the field of the first title, in the
  order of the titles, that its text contains.
\<close>

definition cellMatch ::
  "('f, 't) platform \<Rightarrow> StructField list \<Rightarrow> string list \<Rightarrow> ('f, 't) cell \<Rightarrow> templateCell option" where
  "cellMatch P flds titles c =
     (case ccol c of
        None \<Rightarrow> None
      | Some col \<Rightarrow>
          (case findIndex (strContains (GetString P c)) titles of
             None \<Rightarrow> None
           | Some i \<Rightarrow> Some \<lparr>cellColumn = col, structField = flds ! i\<rparr>))"

definition rowMatches :: "('f, 't) platform \<Rightarrow> string list \<Rightarrow> ('f, 't) row \<Rightarrow> bool" where
  "rowMatches P titles r =
     list_ex (\<lambda>c. ccol c \<noteq> None \<and> list_ex (strContains (GetString P c)) titles) (rcells r)"

text \<open>
  The specification's wording of the title row: a row with at least one cell whose text
  contains one of the titles, whatever the cell's reference.
\<close>

definition rowContainsTitle :: "('f, 't) platform \<Rightarrow> string list \<Rightarrow> ('f, 't) row \<Rightarrow> bool" where
  "rowContainsTitle P titles r =
     list_ex (\<lambda>c. list_ex (strContains (GetString P c)) titles) (rcells r)"

text \<open>
  \<open>frame x x'\<close>: the state \<open>x'\<close> differs from \<open>x\<close> at most in the current
  sheet and in the counter \<open>rowsWritten\<close>.
\<close>

definition frame :: "('f, 't) xlsx \<Rightarrow> ('f, 't) xlsx \<Rightarrow> bool" where
  "frame x x' =
     (currentSheet x' = currentSheet x \<and> templateFile x' = templateFile x \<and>
      styleSheet x' = styleSheet x \<and> length (workbook x') = length (workbook x) \<and>
      (\<forall>j. j \<noteq> currentSheet x \<longrightarrow> workbook x' ! j = workbook x ! j))"

text \<open>
  The argument of a write is a record of the struct type with the fields \<open>fs\<close>, or
  a slice of such records.
\<close>

definition recordsOf :: "StructField list \<Rightarrow> ('f, 't) rvalue \<Rightarrow> bool" where
  "recordsOf fs beans =
     (wellTyped beans \<and> (typeOf beans = StructT fs \<or> typeOf beans = SliceT (StructT fs)))"





text \<open>
  The value of the cell that a row has in a column (unset when it has none), and the
  value which a cell of column \<open>col\<close> with the value \<open>old\<close> holds after the
  fields of a record have been stored through the template cells \<open>tcs\<close>, in order.
\<close>

definition cellValue :: "string \<Rightarrow> ('f, 't) row \<Rightarrow> ('f, 't) cellval" where
  "cellValue col r = cval (rowCell col r)"



text \<open>
  \<open>written i f r r'\<close>: the row \<open>r'\<close> is the row \<open>r\<close> with the same identity
  and number, and with the cell values changed by \<open>f\<close> if its identity is \<open>i\<close>,
  and unchanged otherwise.
\<close>

definition written ::
  "nat \<Rightarrow> (string \<Rightarrow> ('f, 't) cellval \<Rightarrow> ('f, 't) cellval) \<Rightarrow>
     ('f, 't) row \<Rightarrow> ('f, 't) row \<Rightarrow> bool" where
  "written i f r r' =
     (rid r' = rid r \<and> rnum r' = rnum r \<and>
      (\<forall>col. cellValue col r' = (if rid r = i then f col (cellValue col r) else cellValue col r)))"

section \<open>Example inputs\<close>

text \<open>
  A platform on which instants are natural numbers and \<open>float64\<close> values are
  integers, and a few record types, records and template sheets.
\<close>

definition exPlatform :: "(int, nat) platform" where
  "exPlatform =
     \<lparr>timeFormat = (\<lambda>t layout. layout),
      intToFloat64 = (\<lambda>n. n),
      rawText = (\<lambda>v. []),
      columnName = (\<lambda>n. [''ABCDEFGHIJKLMNOPQRSTUVWXYZ'' ! (n mod 26)]),
      defaultSheetName = (\<lambda>n. ''Sheet'')\<rparr>"

definition fTotal :: StructField where
  "fTotal = \<lparr>fname = ''Total'', pkgPath = [], isT = False,
             ftag = [(''title'', ''Total'')], findex = 0\<rparr>"

definition fNew :: StructField where
  "fNew = \<lparr>fname = ''New'', pkgPath = [], isT = False, ftag = [], findex = 1\<rparr>"

definition fName :: StructField where
  "fName = \<lparr>fname = ''Name'', pkgPath = [], isT = False, ftag = [], findex = 0\<rparr>"

definition textCell :: "string option \<Rightarrow> string \<Rightarrow> nat option \<Rightarrow> (int, nat) cell" where
  "textCell col s sty = \<lparr>ccol = col, cval = CString s, cstyle = sty\<rparr>"

text \<open>Two cells of one row carry the same title.\<close>

definition twiceTitledRows :: "(int, nat) row list" where
  "twiceTitledRows =
     [\<lparr>rid = 0, rnum = 1,
       rcells = [textCell (Some ''A'') ''Total'' None, textCell (Some ''B'') ''Total'' None]\<rparr>]"

text \<open>The first row has the title in a cell without a reference, the second in column B.\<close>

definition unreferencedRows :: "(int, nat) row list" where
  "unreferencedRows =
     [\<lparr>rid = 0, rnum = 1, rcells = [textCell None ''Total'' None]\<rparr>,
      \<lparr>rid = 1, rnum = 2, rcells = [textCell (Some ''B'') ''Total (count)'' None]\<rparr>]"

definition unreferencedXlsx :: "(int, nat) xlsx" where
  "unreferencedXlsx =
     New ''template.xlsx'' (Some ([\<lparr>sname = ''Sheet1'', srows = unreferencedRows\<rparr>], []))"

text \<open>The template cells that the scan finds in \<open>twiceTitledRows\<close>.\<close>

definition twiceCells :: "templateCell list" where
  "twiceCells =
     [\<lparr>cellColumn = ''A'', structField = fTotal\<rparr>, \<lparr>cellColumn = ''B'', structField = fTotal\<rparr>]"

text \<open>A title row, a marked row, an unmarked row and another marked row.\<close>

definition scatteredRows :: "(int, nat) row list" where
  "scatteredRows =
     [\<lparr>rid = 0, rnum = 1, rcells = [textCell (Some ''A'') ''Total'' None]\<rparr>,
      \<lparr>rid = 1, rnum = 2, rcells = [textCell (Some ''A'') ''template'' None]\<rparr>,
      \<lparr>rid = 2, rnum = 3, rcells = [textCell (Some ''A'') ''sum'' None]\<rparr>,
      \<lparr>rid = 3, rnum = 4, rcells = [textCell (Some ''A'') ''template'' None]\<rparr>]"

definition totalInA :: "templateCell list" where
  "totalInA = [\<lparr>cellColumn = ''A'', structField = fTotal\<rparr>]"

text \<open>Two records of a type with the fields \<open>Total\<close> and \<open>New\<close>, and the slice of both.\<close>

definition exRecord1 :: "(int, nat) rvalue" where
  "exRecord1 = StructV [(fTotal, IntV 100), (fNew, IntV 50)]"

definition exRecord2 :: "(int, nat) rvalue" where
  "exRecord2 = StructV [(fTotal, IntV 200), (fNew, IntV 60)]"

definition exRecords :: "(int, nat) rvalue" where
  "exRecords = SliceV (StructT [fTotal, fNew]) [exRecord1, exRecord2]"

text \<open>
  A template: a title row with the two titles, two marked rows with styles, and a
  workbook whose style sheet defines the styles 1 to 4.
\<close>

definition templateRowsEx :: "(int, nat) row list" where
  "templateRowsEx =
     [\<lparr>rid = 0, rnum = 1,
       rcells = [textCell (Some ''A'') ''Total (count)'' None, textCell (Some ''B'') ''New'' None]\<rparr>,
      \<lparr>rid = 1, rnum = 2,
       rcells = [textCell (Some ''A'') ''template'' (Some 1), textCell (Some ''B'') [] (Some 2)]\<rparr>,
      \<lparr>rid = 2, rnum = 3,
       rcells = [textCell (Some ''A'') ''template'' (Some 3), textCell (Some ''B'') [] None]\<rparr>]"

definition templateXlsx :: "(int, nat) xlsx" where
  "templateXlsx =
     New ''template.xlsx'' (Some ([\<lparr>sname = ''Sheet1'', srows = templateRowsEx\<rparr>], [1, 2, 3, 4]))"

definition noRecords :: "(int, nat) rvalue" where
  "noRecords = SliceV (StructT [fTotal, fNew]) []"




section \<open>Properties\<close>

subsection \<open>Substrings\<close>

lemma strContains_iff: "strContains s sub \<longleftrightarrow> (\<exists>ps ss. s = ps @ sub @ ss)"
proof (induction s)
  case Nil
  then show ?case by simp
next
  case (Cons c cs)
  show ?case
  proof
    assume "strContains (c # cs) sub"
    then consider "prefix sub (c # cs)" | "strContains cs sub" by auto
    then show "\<exists>ps ss. c # cs = ps @ sub @ ss"
    proof cases
      case 1
      then obtain ss where "c # cs = sub @ ss" by (auto simp: prefix_def)
      then have "c # cs = [] @ sub @ ss" by simp
      then show ?thesis by blast
    next
      case 2
      with Cons.IH obtain ps ss where "cs = ps @ sub @ ss" by auto
      then have "c # cs = (c # ps) @ sub @ ss" by simp
      then show ?thesis by blast
    qed
  next
    assume "\<exists>ps ss. c # cs = ps @ sub @ ss"
    then obtain ps ss where e: "c # cs = ps @ sub @ ss" by blast
    show "strContains (c # cs) sub"
    proof (cases ps)
      case Nil
      with e have "prefix sub (c # cs)" by (simp add: prefix_def)
      then show ?thesis by simp
    next
      case (Cons p ps')
      with e have "cs = ps' @ sub @ ss" by simp
      with Cons.IH have "strContains cs sub" by blast
      then show ?thesis by simp
    qed
  qed
qed

subsection \<open>The title-row scan\<close>

lemma findIndex_None_iff: "findIndex p xs = None \<longleftrightarrow> \<not> list_ex p xs"
  by (induction xs) auto

lemma findIndex_Some_less:
  "findIndex p xs = Some i \<Longrightarrow> i < length xs \<and> p (xs ! i) \<and> (\<forall>j<i. \<not> p (xs ! j))"
proof (induction xs arbitrary: i)
  case Nil
  then show ?case by simp
next
  case (Cons x xs)
  show ?case
  proof (cases "p x")
    case True
    with Cons.prems show ?thesis by simp
  next
    case False
    with Cons.prems obtain k where k: "findIndex p xs = Some k" "i = Suc k" by auto
    from Cons.IH[OF k(1)] False k(2) show ?thesis
      by (auto simp: nth_Cons split: nat.splits)
  qed
qed

lemma matchTitles_eq:
  "i + length titles \<le> length flds \<Longrightarrow>
   matchTitles s col flds i titles =
     Some (case col of
             None \<Rightarrow> None
           | Some c \<Rightarrow>
               (case findIndex (strContains s) titles of
                  None \<Rightarrow> None
                | Some j \<Rightarrow> Some \<lparr>cellColumn = c, structField = flds ! (i + j)\<rparr>))"
proof (induction titles arbitrary: i)
  case Nil
  then show ?case by (simp split: option.splits)
next
  case (Cons t ts)
  then have IH: "matchTitles s col flds (Suc i) ts =
     Some (case col of
             None \<Rightarrow> None
           | Some c \<Rightarrow>
               (case findIndex (strContains s) ts of
                  None \<Rightarrow> None
                | Some j \<Rightarrow> Some \<lparr>cellColumn = c, structField = flds ! (Suc i + j)\<rparr>))"
    by simp
  from Cons.prems have "i < length flds" by simp
  then show ?case using IH
    by (cases col; cases "findIndex (strContains s) ts") auto
qed

lemma scanCells_eq:
  "length titles \<le> length flds \<Longrightarrow>
   scanCells P flds titles cs tcs = Some (tcs @ List.map_filter (cellMatch P flds titles) cs)"
proof (induction cs arbitrary: tcs)
  case Nil
  then show ?case by (simp add: List.map_filter_simps)
next
  case (Cons c cs)
  have m: "matchTitles (GetString P c) (ccol c) flds 0 titles = Some (cellMatch P flds titles c)"
    using Cons.prems by (simp add: matchTitles_eq cellMatch_def split: option.splits)
  show ?case
    by (cases "cellMatch P flds titles c")
       (simp_all add: m Cons.IH[OF Cons.prems] List.map_filter_simps)
qed

lemma cellMatch_None_iff:
  "cellMatch P flds titles c = None \<longleftrightarrow>
     \<not> (ccol c \<noteq> None \<and> list_ex (strContains (GetString P c)) titles)"
proof (cases "findIndex (strContains (GetString P c)) titles")
  case None
  then show ?thesis
    using findIndex_None_iff[of "strContains (GetString P c)" titles]
    by (simp add: cellMatch_def split: option.splits)
next
  case (Some i)
  then have "list_ex (strContains (GetString P c)) titles"
    using findIndex_None_iff[of "strContains (GetString P c)" titles] by simp
  with Some show ?thesis
    by (simp add: cellMatch_def split: option.splits)
qed

lemma map_filter_Nil_iff: "List.map_filter f xs = [] \<longleftrightarrow> (\<forall>x\<in>set xs. f x = None)"
  by (induction xs) (auto simp: List.map_filter_simps split: option.splits)

lemma rowMatches_iff:
  "rowMatches P titles r \<longleftrightarrow> List.map_filter (cellMatch P flds titles) (rcells r) \<noteq> []"
  by (auto simp: rowMatches_def map_filter_Nil_iff cellMatch_None_iff list_ex_iff)

lemma scanRows_eq:
  "length titles \<le> length flds \<Longrightarrow>
   scanRows P flds titles k rows [] =
     Some (case findIndex (rowMatches P titles) rows of
             None \<Rightarrow> (- 1, [])
           | Some i \<Rightarrow> (k + int i, List.map_filter (cellMatch P flds titles) (rcells (rows ! i))))"
proof (induction rows arbitrary: k)
  case Nil
  then show ?case by simp
next
  case (Cons r rs)
  show ?case
  proof (cases "rowMatches P titles r")
    case True
    then show ?thesis
      using Cons.prems by (simp add: scanCells_eq rowMatches_iff[of P titles r flds])
  next
    case False
    then have e: "List.map_filter (cellMatch P flds titles) (rcells r) = []"
      by (simp add: rowMatches_iff[of P titles r flds])
    show ?thesis
      using Cons.prems False Cons.IH[of "k + 1"]
      by (cases "findIndex (rowMatches P titles) rs") (simp_all add: scanCells_eq e)
  qed
qed

lemma findTemplateTitledRow_eq:
  "length titles \<le> length flds \<Longrightarrow>
   findTemplateTitledRow P flds titles rows =
     Some (case findIndex (rowMatches P titles) rows of
             None \<Rightarrow> (- 1, [])
           | Some i \<Rightarrow> (int i, List.map_filter (cellMatch P flds titles) (rcells (rows ! i))))"
  by (simp add: findTemplateTitledRow_def scanRows_eq split: option.splits)

lemma findTemplateRows_not_None:
  "titledRowIdx < 0 \<or> tcs \<noteq> [] \<Longrightarrow>
   \<exists>rs trs. findTemplateRows P titledRowIdx tcs rows = Some (rs, trs) \<and>
            (titledRowIdx < 0 \<longrightarrow> trs = [])"
  by (cases tcs) (auto simp: findTemplateRows_def split: prod.splits)

lemma locate_locateTitles:
  assumes "locate P y beans = Some loc"
  shows "length (ltitles loc) = length (lfields loc) \<and>
         (\<exists>y1. hasTemplate y1 = hasTemplate y \<and>
               locateTitles P y1 (lfields loc) (ltitles loc) = Some (lx loc, llocation loc))"
proof -
  from assms obtain ttag flds where
    t: "findTTag (beanStructType beans) = Some ttag" and
    f: "collectExportableFields (beanStructType beans) = Some flds"
    by (auto simp: locate_def split: option.splits prod.splits)
  obtain x0 i where c: "createSheet P y ttag = (x0, i)" by (cases "createSheet P y ttag")
  have h: "hasTemplate x0 = hasTemplate y"
    using c by (auto simp: createSheet_def hasTemplate_def AddSheet_def SetName_def Let_def
        split: option.splits if_splits prod.splits)
  let ?y1 = "x0\<lparr>currentSheet := i\<rparr>"
  from assms t f c have
    "locateTitles P ?y1 flds (fst (collectTitles flds)) = Some (lx loc, llocation loc)"
    "lfields loc = flds" "ltitles loc = fst (collectTitles flds)"
    by (auto simp: locate_def split: option.splits prod.splits)
  moreover have "hasTemplate ?y1 = hasTemplate y" using h by (simp add: hasTemplate_def)
  moreover have "length (fst (collectTitles flds)) = length flds" by (simp add: collectTitles_def)
  ultimately show ?thesis by auto
qed

text \<open>
  C1 (amended). With a template, the locator returns as \<open>titledRowIndex\<close> the
  zero-based index of the first row, from the top, with a cell whose column resolves
  and whose text contains one of the resolved titles as a substring, and the location
  is then valid. When no row has such a cell the location is degenerate:
  \<open>titledRowIndex\<close> is -1, there are no template cells and no template rows, and
  \<open>isValid\<close> is false. The location of a write call is the locator's result for
  the fields and titles of the record type, and a call whose location is not valid
  writes its records with \<open>writeRow\<close>, which appends rows.
\<close>

theorem locateTitles_title_row:
  assumes "hasTemplate x" and "length titles \<le> length flds"
  shows "(\<exists>x' l. locateTitles P x flds titles = Some (x', l) \<and>
            (case findIndex (rowMatches P titles) (srows (curSheet x)) of
               Some i \<Rightarrow> titledRowIndex l = int i \<and> isValid l
             | None \<Rightarrow> titledRowIndex l = - 1 \<and> templateCells l = [] \<and> templateRows l = []
                        \<and> \<not> isValid l)) \<and>
         (\<forall>y loc. locate P y beans = Some loc \<longrightarrow>
            length (ltitles loc) = length (lfields loc) \<and>
            (\<exists>y1. hasTemplate y1 = hasTemplate y \<and>
                  locateTitles P y1 (lfields loc) (ltitles loc) = Some (lx loc, llocation loc)) \<and>
            (\<not> isValid (llocation loc) \<longrightarrow>
               Write P y beans =
                 Option.bind
                   (if wantsTitle loc then writeTitles P (lfields loc) (ltitles loc) (lx loc)
                    else Some (lx loc))
                   (foldOpt (writeRow P (lfields loc)) (beanValues beans))))"
proof (intro conjI allI impI)
  let ?rows = "srows (curSheet x)"
  have ft: "findTemplateTitledRow P flds titles ?rows =
     Some (case findIndex (rowMatches P titles) ?rows of
             None \<Rightarrow> (- 1, [])
           | Some i \<Rightarrow> (int i, List.map_filter (cellMatch P flds titles) (rcells (?rows ! i))))"
    using assms(2) by (rule findTemplateTitledRow_eq)
  show "\<exists>x' l. locateTitles P x flds titles = Some (x', l) \<and>
            (case findIndex (rowMatches P titles) ?rows of
               Some i \<Rightarrow> titledRowIndex l = int i \<and> isValid l
             | None \<Rightarrow> titledRowIndex l = - 1 \<and> templateCells l = [] \<and> templateRows l = []
                        \<and> \<not> isValid l)"
  proof (cases "findIndex (rowMatches P titles) ?rows")
    case None
    obtain rs trs where "findTemplateRows P (- 1) [] ?rows = Some (rs, trs)" "trs = []"
      using findTemplateRows_not_None[of "- 1" "[]" P ?rows] by auto
    then show ?thesis
      using None assms(1) ft by (simp add: locateTitles_def isValid_def Let_def)
  next
    case (Some i)
    let ?tcs = "List.map_filter (cellMatch P flds titles) (rcells (?rows ! i))"
    have "rowMatches P titles (?rows ! i)"
      using findIndex_Some_less[OF Some] by simp
    then have ne: "?tcs \<noteq> []"
      by (simp add: rowMatches_iff[of P titles _ flds])
    obtain rs trs where "findTemplateRows P (int i) ?tcs ?rows = Some (rs, trs)"
      using findTemplateRows_not_None[of "int i" ?tcs P ?rows] ne by auto
    then show ?thesis
      using Some assms(1) ft ne by (simp add: locateTitles_def isValid_def Let_def)
  qed
next
  fix y loc
  assume l: "locate P y beans = Some loc"
  from locate_locateTitles[OF l]
  show "length (ltitles loc) = length (lfields loc)"
    and "\<exists>y1. hasTemplate y1 = hasTemplate y \<and>
              locateTitles P y1 (lfields loc) (ltitles loc) = Some (lx loc, llocation loc)"
    by simp_all
  assume "\<not> isValid (llocation loc)"
  with l show "Write P y beans =
              Option.bind
                (if wantsTitle loc then writeTitles P (lfields loc) (ltitles loc) (lx loc)
                 else Some (lx loc))
                (foldOpt (writeRow P (lfields loc)) (beanValues beans))"
    by (auto simp: Write_def split: option.splits)
qed

theorem locateTitles_title_row_witness:
  "hasTemplate unreferencedXlsx \<and> length [''Total''] \<le> length [fTotal] \<and>
   (\<exists>x' l. locateTitles exPlatform unreferencedXlsx [fTotal] [''Total''] = Some (x', l) \<and>
            titledRowIndex l = 1 \<and> isValid l)"
proof -
  have h1: "hasTemplate unreferencedXlsx"
    by (simp add: hasTemplate_def unreferencedXlsx_def New_def)
  have h2: "length [''Total''] \<le> length [fTotal]" by simp
  have i: "findIndex (rowMatches exPlatform [''Total'']) (srows (curSheet unreferencedXlsx)) = Some 1"
    by (simp add: unreferencedXlsx_def New_def curSheet_def unreferencedRows_def rowMatches_def
        textCell_def GetString_def)
  from locateTitles_title_row[OF h1 h2, of exPlatform] i h1 h2 show ?thesis
    by auto
qed

text \<open>
  The claim as stated fails where a cell's text contains a title and its column does
  not resolve: the first row of \<open>unreferencedRows\<close> contains the title, and the
  locator returns the second row.
\<close>

theorem title_row_counterexample:
  "findIndex (rowContainsTitle exPlatform [''Total'']) (srows (curSheet unreferencedXlsx)) = Some 0 \<and>
   titledRowIndex (snd (the (locateTitles exPlatform unreferencedXlsx [fTotal] [''Total'']))) = 1"
  by (simp add: unreferencedXlsx_def New_def curSheet_def unreferencedRows_def rowContainsTitle_def
        textCell_def GetString_def locateTitles_def hasTemplate_def findTemplateTitledRow_def
        findTemplateRows_def setCurSheet_def)

text \<open>
  C7 (amended). In the title row every cell is tested against all the resolved
  titles, in their order, whether or not an earlier cell of the row matched them: the
  loop over the titles for a cell yields the entry for the first title the cell's text
  contains (none when the column does not resolve), and \<open>templateCells\<close> is the
  list of these entries over the cells of the title row, in cell order. So
  \<open>templateCells\<close> has at most one entry per cell, and one title can have several.
\<close>

theorem templateCells_one_per_cell:
  assumes "length titles \<le> length flds"
    and "findTemplateTitledRow P flds titles rows = Some (idx, tcs)"
    and "0 \<le> idx"
  shows "nat idx < length rows \<and>
         tcs = List.map_filter (cellMatch P flds titles) (rcells (rows ! nat idx)) \<and>
         length tcs \<le> length (rcells (rows ! nat idx)) \<and>
         (\<forall>c. matchTitles (GetString P c) (ccol c) flds 0 titles = Some (cellMatch P flds titles c))"
proof -
  from assms(2) findTemplateTitledRow_eq[OF assms(1), of P rows]
  have e: "(idx, tcs) = (case findIndex (rowMatches P titles) rows of
             None \<Rightarrow> (- 1, [])
           | Some i \<Rightarrow> (int i, List.map_filter (cellMatch P flds titles) (rcells (rows ! i))))"
    by simp
  with assms(3) obtain i where i: "findIndex (rowMatches P titles) rows = Some i"
    by (cases "findIndex (rowMatches P titles) rows") auto
  with e have "idx = int i"
    and t: "tcs = List.map_filter (cellMatch P flds titles) (rcells (rows ! i))"
    by simp_all
  moreover have "i < length rows" using findIndex_Some_less[OF i] by simp
  moreover have "length (List.map_filter (cellMatch P flds titles) cs) \<le> length cs" for cs
    by (induction cs) (auto simp: List.map_filter_simps split: option.splits)
  moreover have
    "matchTitles (GetString P c) (ccol c) flds 0 titles = Some (cellMatch P flds titles c)" for c
    using assms(1) by (simp add: matchTitles_eq cellMatch_def split: option.splits)
  ultimately show ?thesis by simp
qed

theorem templateCells_one_per_cell_witness:
  "length [''Total''] \<le> length [fTotal] \<and>
   findTemplateTitledRow exPlatform [fTotal] [''Total''] twiceTitledRows = Some (0, twiceCells) \<and>
   (0::int) \<le> 0 \<and>
   twiceCells =
     List.map_filter (cellMatch exPlatform [fTotal] [''Total'']) (rcells (twiceTitledRows ! nat 0))"
proof -
  have h1: "length [''Total''] \<le> length [fTotal]" by simp
  have h2: "findTemplateTitledRow exPlatform [fTotal] [''Total''] twiceTitledRows =
            Some (0, twiceCells)"
    by (simp add: findTemplateTitledRow_def twiceTitledRows_def twiceCells_def textCell_def
        GetString_def)
  have h3: "(0::int) \<le> 0" by simp
  from templateCells_one_per_cell[OF h1 h2 h3] h1 h2 show ?thesis by simp
qed

text \<open>
  The claim as stated fails on a title row with two cells containing the same title:
  both are recorded, for the same field.
\<close>

theorem title_uniqueness_counterexample:
  "findTemplateTitledRow exPlatform [fTotal] [''Total''] twiceTitledRows = Some (0, twiceCells) \<and>
   \<not> distinct (map structField twiceCells)"
  by (simp add: findTemplateTitledRow_def twiceTitledRows_def twiceCells_def textCell_def
        GetString_def)

subsection \<open>Pointers\<close>

text \<open>
  C9. \<open>Write\<close> takes the fields from the pointed-to type (lines 79-81) and then
  passes the pointer itself to the row writer, where \<open>FieldByIndex\<close> panics: on a
  document without template, writing a pointer to a record with one exported string
  field panics, and writing the record itself gives a sheet with the one cell.
\<close>

theorem Write_pointer_panics:
  "Write P (New [] None) (PtrV (StructV [(fName, StringV ''a'')])) = None \<and>
   map (map cval \<circ> rcells)
     (srows (curSheet (the (Write P (New [] None) (StructV [(fName, StringV ''a'')]))))) =
     [[CString ''a'']]"
  by (simp add: Write_def locate_def beanStructType_def findTTag_def createSheet_def New_def
      hasTemplate_def AddSheet_def tagGet_def collectExportableFields_def collectTitles_def
      locateTitles_def fName_def wantsTitle_def isValid_def beanValues_def writeRow_def
      AddRow_def curSheet_def setCellValue_def freshId_def modRow_def addCellWith_def
      setCurSheet_def SetString_def newCell_def enumerate_eq_zip)

subsection \<open>The template rows\<close>

lemma rid_ensureCell: "rid (ensureCell col r) = rid r"
  by (simp add: ensureCell_def)

lemma rnum_ensureCell: "rnum (ensureCell col r) = rnum r"
  by (simp add: ensureCell_def)

lemma map_rid_ensureCell: "map rid (map (ensureCell col) xs) = map rid xs"
  by (induction xs) (simp_all add: rid_ensureCell)

lemma map_rnum_ensureCell: "map rnum (map (ensureCell col) xs) = map rnum xs"
  by (induction xs) (simp_all add: rnum_ensureCell)

lemma find_append_None: "find p xs = None \<Longrightarrow> find p (xs @ ys) = find p ys"
  by (induction xs) (auto split: if_splits)

lemma rowCell_ensureCell: "rowCell col (ensureCell col r) = rowCell col r"
proof (cases "list_ex (\<lambda>c. ccol c = Some col) (rcells r)")
  case True
  then show ?thesis by (simp add: ensureCell_def)
next
  case False
  then have "find (\<lambda>c. ccol c = Some col) (rcells r) = None"
    by (simp add: find_None_iff list_ex_iff)
  then show ?thesis
    using False by (simp add: ensureCell_def rowCell_def find_append_None newCell_def)
qed

lemma carriesMarker_ensureCell: "carriesMarker P col (ensureCell col r) = carriesMarker P col r"
  by (simp add: carriesMarker_def rowCell_ensureCell)

lemma collectTemplateRows_eq:
  "collectTemplateRows P col rs trs =
     (if trs \<noteq> [] \<or> (rs \<noteq> [] \<and> carriesMarker P col (hd rs))
      then (map (ensureCell col) rs, trs @ map rid (filter (carriesMarker P col) rs))
      else (case rs of [] \<Rightarrow> ([], trs) | r # rs' \<Rightarrow> (ensureCell col r # rs', [rid r])))"
proof (induction rs arbitrary: trs)
  case Nil
  then show ?case by simp
next
  case (Cons r rs)
  show ?case
  proof (cases "carriesMarker P col r")
    case True
    then show ?thesis
      by (simp add: Cons.IH carriesMarker_ensureCell rid_ensureCell Let_def)
  next
    case False
    then show ?thesis
      by (cases "trs = []") (simp_all add: Cons.IH carriesMarker_ensureCell rid_ensureCell Let_def)
  qed
qed

text \<open>
  C6 (amended). For a located title row, when the first row below the title row carries
  the marker (its cell in the marker column, the column of the first template cell,
  contains the text "template"), \<open>templateRows\<close> is the list, in sheet order, of all
  the rows below the title row that carry the marker, also those after a row without
  it; when the first row below the title row does not carry the marker, that single row
  alone is returned; when there is no row below the title row, there are no template
  rows. The scan leaves the rows in place, adding at most an empty cell in the marker
  column.
\<close>

theorem findTemplateRows_marked:
  assumes "0 \<le> idx" and "tcs = tc # tcs'"
  shows "\<exists>rows'. findTemplateRows P idx tcs rows =
           Some (rows',
                 (case drop (nat (idx + 1)) rows of
                    [] \<Rightarrow> []
                  | r # rs \<Rightarrow>
                      if carriesMarker P (cellColumn tc) r
                      then map rid (filter (carriesMarker P (cellColumn tc)) (r # rs))
                      else [rid r])) \<and>
           map rid rows' = map rid rows \<and> map rnum rows' = map rnum rows"
proof -
  let ?col = "cellColumn tc"
  let ?below = "drop (nat (idx + 1)) rows"
  obtain rs' trs where c: "collectTemplateRows P ?col ?below [] = (rs', trs)"
    by (cases "collectTemplateRows P ?col ?below []")
  have f: "findTemplateRows P idx tcs rows = Some (take (nat (idx + 1)) rows @ rs', trs)"
    using assms c by (simp add: findTemplateRows_def)
  have mi: "map rid (take (nat (idx + 1)) rows @ ys) = map rid rows"
    if "map rid ys = map rid ?below" for ys :: "('a, 'b) row list"
  proof -
    have "map rid (take (nat (idx + 1)) rows @ ys) =
          map rid (take (nat (idx + 1)) rows) @ map rid ?below"
      using that by simp
    also have "\<dots> = map rid (take (nat (idx + 1)) rows @ ?below)" by (simp only: map_append)
    finally show ?thesis by (simp only: append_take_drop_id)
  qed
  have mn: "map rnum (take (nat (idx + 1)) rows @ ys) = map rnum rows"
    if "map rnum ys = map rnum ?below" for ys :: "('a, 'b) row list"
  proof -
    have "map rnum (take (nat (idx + 1)) rows @ ys) =
          map rnum (take (nat (idx + 1)) rows) @ map rnum ?below"
      using that by simp
    also have "\<dots> = map rnum (take (nat (idx + 1)) rows @ ?below)" by (simp only: map_append)
    finally show ?thesis by (simp only: append_take_drop_id)
  qed
  show ?thesis
  proof (cases ?below)
    case Nil
    with c f show ?thesis by simp
  next
    case (Cons r rs)
    show ?thesis
    proof (cases "carriesMarker P ?col r")
      case True
      with c Cons have "rs' = map (ensureCell ?col) ?below"
        and "trs = map rid (filter (carriesMarker P ?col) (r # rs))"
        by (simp_all add: collectTemplateRows_eq)
      moreover have "map rid (take (nat (idx + 1)) rows @ map (ensureCell ?col) ?below) = map rid rows"
        by (rule mi) (rule map_rid_ensureCell)
      moreover have "map rnum (take (nat (idx + 1)) rows @ map (ensureCell ?col) ?below) = map rnum rows"
        by (rule mn) (rule map_rnum_ensureCell)
      ultimately show ?thesis using f Cons True by simp
    next
      case False
      with c Cons have r: "rs' = ensureCell ?col r # rs" and "trs = [rid r]"
        by (simp_all add: collectTemplateRows_eq)
      moreover have "map rid (take (nat (idx + 1)) rows @ ensureCell ?col r # rs) = map rid rows"
        by (rule mi) (simp add: Cons rid_ensureCell)
      moreover have "map rnum (take (nat (idx + 1)) rows @ ensureCell ?col r # rs) = map rnum rows"
        by (rule mn) (simp add: Cons rnum_ensureCell)
      ultimately show ?thesis using f Cons False by simp
    qed
  qed
qed

theorem findTemplateRows_marked_witness:
  "(0::int) \<le> 0 \<and> totalInA = hd totalInA # [] \<and>
   (\<exists>rows'. findTemplateRows exPlatform 0 totalInA scatteredRows = Some (rows', [1, 3]))"
proof -
  have h1: "(0::int) \<le> 0" by simp
  have h2: "totalInA = hd totalInA # []" by (simp add: totalInA_def)
  have "(case drop (nat (0 + 1)) scatteredRows of
           [] \<Rightarrow> []
         | r # rs \<Rightarrow>
             if carriesMarker exPlatform (cellColumn (hd totalInA)) r
             then map rid (filter (carriesMarker exPlatform (cellColumn (hd totalInA))) (r # rs))
             else [rid r]) = [1, 3]"
    by (simp add: scatteredRows_def totalInA_def carriesMarker_def rowCell_def textCell_def
        GetString_def)
  with findTemplateRows_marked[OF h1 h2, of exPlatform scatteredRows] h1 h2 show ?thesis
    by auto
qed

text \<open>
  The claim as stated fails when a marked row follows an unmarked one: the run of marked
  rows below the title row of \<open>scatteredRows\<close> is the one row 1, and the template
  rows are rows 1 and 3.
\<close>

theorem contiguous_run_counterexample:
  "map rid (takeWhile (carriesMarker exPlatform ''A'') (drop 1 scatteredRows)) = [1] \<and>
   snd (the (findTemplateRows exPlatform 0 totalInA scatteredRows)) = [1, 3]"
  by (simp add: scatteredRows_def totalInA_def carriesMarker_def rowCell_def textCell_def
      GetString_def findTemplateRows_def ensureCell_def)

subsection \<open>What a write leaves alone\<close>

lemma frame_refl: "frame x x"
  by (simp add: frame_def)

lemma frame_trans: "frame x y \<Longrightarrow> frame y z \<Longrightarrow> frame x z"
  by (simp add: frame_def)

lemma frame_setCurSheet: "frame x (setCurSheet sh x)"
  by (simp add: frame_def setCurSheet_def)

lemma frame_rowsWritten: "frame x (x\<lparr>rowsWritten := n\<rparr>)"
  by (simp add: frame_def)

lemma foldOpt_invariant:
  assumes "\<And>a s s'. f a s = Some s' \<Longrightarrow> R s s'"
    and "\<And>s. R s s" and "\<And>s t u. R s t \<Longrightarrow> R t u \<Longrightarrow> R s u"
    and "foldOpt f as s = Some s'"
  shows "R s s'"
  using assms(4)
proof (induction as arbitrary: s)
  case Nil
  then show ?case using assms(2) by simp
next
  case (Cons a as)
  from Cons.prems obtain t where t: "f a s = Some t" "foldOpt f as t = Some s'"
    by (auto split: option.splits)
  have "R s t" using assms(1) t(1) by simp
  moreover have "R t s'" using Cons.IH t(2) by simp
  ultimately show ?case using assms(3) by blast
qed

lemma foldOpt_total:
  assumes "\<And>a s. a \<in> set as \<Longrightarrow> f a s \<noteq> None"
  shows "foldOpt f as s \<noteq> None"
  using assms
proof (induction as arbitrary: s)
  case Nil
  then show ?case by simp
next
  case (Cons a as)
  then obtain t where "f a s = Some t" by fastforce
  with Cons show ?case by simp
qed

lemma writeRow_frame:
  "writeRow P flds v x = Some x' \<Longrightarrow> frame x x' \<and> rowsWritten x' = rowsWritten x"
  by (auto simp: writeRow_def frame_def setCurSheet_def split: prod.splits)

lemma writeTitles_frame:
  "writeTitles P flds titles x = Some x' \<Longrightarrow> frame x x' \<and> rowsWritten x' = rowsWritten x"
  by (auto simp: writeTitles_def frame_def setCurSheet_def split: prod.splits)

lemma copyRowStyle_frame: "frame x (copyRowStyle l i x) \<and> rowsWritten (copyRowStyle l i x) = rowsWritten x"
  by (auto simp: copyRowStyle_def frame_def setCurSheet_def split: option.splits)

lemma writeTemplateRow_frame:
  assumes "writeTemplateRow P l v x = Some x'"
  shows "frame x x' \<and> rowsWritten x' = rowsWritten x + 1"
proof -
  let ?x1 = "x\<lparr>rowsWritten := rowsWritten x + 1\<rparr>"
  from assms obtain sh' i where x': "x' = copyRowStyle l i (setCurSheet sh' ?x1)"
    by (auto simp: writeTemplateRow_def Let_def split: prod.splits option.splits)
  have "frame x ?x1" by (rule frame_rowsWritten)
  moreover have "frame ?x1 (setCurSheet sh' ?x1)" by (rule frame_setCurSheet)
  moreover have "frame (setCurSheet sh' ?x1) x'"
    using copyRowStyle_frame[of "setCurSheet sh' ?x1" l i] x' by simp
  ultimately have "frame x x'" by (blast intro: frame_trans)
  moreover have "rowsWritten x' = rowsWritten x + 1"
    using copyRowStyle_frame[of "setCurSheet sh' ?x1" l i] x' by (simp add: setCurSheet_def)
  ultimately show ?thesis by simp
qed


lemma writeRows_frame:
  assumes "foldOpt (writeRow P flds) vs x = Some x'"
  shows "frame x x' \<and> rowsWritten x' = rowsWritten x"
proof (rule foldOpt_invariant[where R = "\<lambda>s s'. frame s s' \<and> rowsWritten s' = rowsWritten s",
      OF _ _ _ assms])
  show "\<And>a s s'. writeRow P flds a s = Some s' \<Longrightarrow>
          frame s s' \<and> rowsWritten s' = rowsWritten s"
    by (rule writeRow_frame)
  show "\<And>s. frame s s \<and> rowsWritten s = rowsWritten s" by (simp add: frame_refl)
  show "\<And>s t u. frame s t \<and> rowsWritten t = rowsWritten s \<Longrightarrow>
          frame t u \<and> rowsWritten u = rowsWritten t \<Longrightarrow> frame s u \<and> rowsWritten u = rowsWritten s"
    by (auto intro: frame_trans)
qed

lemma writeTemplateRows_frame:
  "foldOpt (writeTemplateRow P l) vs x = Some x' \<Longrightarrow>
   frame x x' \<and> rowsWritten x' = rowsWritten x + int (length vs)"
proof (induction vs arbitrary: x)
  case Nil
  then show ?case by (simp add: frame_refl)
next
  case (Cons v vs)
  from Cons.prems obtain t where t: "writeTemplateRow P l v x = Some t"
    "foldOpt (writeTemplateRow P l) vs t = Some x'"
    by (auto split: option.splits)
  from writeTemplateRow_frame[OF t(1)] Cons.IH[OF t(2)] show ?case
    by (auto intro: frame_trans)
qed

subsection \<open>Records never make the writers panic\<close>

lemma structFields_findex:
  "structFields (StructT fs) = Some flds \<Longrightarrow> f \<in> set flds \<Longrightarrow> findex f < length fs"
  by (auto simp: enumerate_eq_zip in_set_zip)

lemma collectExportableFields_findex:
  "collectExportableFields (StructT fs) = Some flds \<Longrightarrow> f \<in> set flds \<Longrightarrow> findex f < length fs"
  by (auto simp: collectExportableFields_def enumerate_eq_zip in_set_zip)

lemma setCellValue_struct:
  "findex f < length fvs \<Longrightarrow> setCellValue P f (StructV fvs) \<noteq> None"
  by (simp add: setCellValue_def)

lemma writeRow_total:
  assumes "\<And>f. f \<in> set flds \<Longrightarrow> findex f < length fvs"
  shows "writeRow P flds (StructV fvs) x \<noteq> None"
proof -
  have "foldOpt (\<lambda>field sh'. map_option (\<lambda>upd. modRow i (addCellWith P upd) sh')
                                    (setCellValue P field (StructV fvs))) flds sh \<noteq> None" for i sh
    by (rule foldOpt_total) (use assms setCellValue_struct in fastforce)
  then show ?thesis
    by (auto simp: writeRow_def split: prod.splits)
qed

lemma writeTitles_total:
  assumes "length flds \<le> length titles"
  shows "writeTitles P flds titles x \<noteq> None"
proof -
  have "foldOpt (\<lambda>k sh'. if k < length titles
                              then Some (modRow i (addCellWith P (SetString (titles ! k))) sh')
                              else None) [0 ..< length flds] sh \<noteq> None" for i sh
    by (rule foldOpt_total) (use assms in auto)
  then show ?thesis
    by (auto simp: writeTitles_def split: prod.splits)
qed

lemma recordsOf_type: "recordsOf fs beans \<Longrightarrow> beanStructType beans = StructT fs"
  by (cases beans) (auto simp: recordsOf_def beanStructType_def)

lemma recordsOf_values:
  "recordsOf fs beans \<Longrightarrow> v \<in> set (beanValues beans) \<Longrightarrow> \<exists>fvs. v = StructV fvs \<and> map fst fvs = fs"
proof (cases beans)
  case (StructV fvs)
  assume "recordsOf fs beans" "v \<in> set (beanValues beans)"
  with StructV show ?thesis by (simp add: recordsOf_def beanValues_def)
next
  case (PtrV w)
  assume "recordsOf fs beans"
  with PtrV show ?thesis by (simp add: recordsOf_def)
next
  case (SliceV t vs)
  assume "recordsOf fs beans" "v \<in> set (beanValues beans)"
  with SliceV have "typeOf v = StructT fs"
    by (auto simp: recordsOf_def beanValues_def list_all_iff)
  then show ?thesis by (cases v) auto
qed

subsection \<open>Writing without a template\<close>

lemma createSheet_no_template:
  assumes "\<not> hasTemplate x" and "createSheet P x ttag = (x1, i)"
  shows "i = length (workbook x) \<and> (\<exists>sh. workbook x1 = workbook x @ [sh] \<and> srows sh = []) \<and>
         templateFile x1 = templateFile x \<and> styleSheet x1 = styleSheet x \<and>
         rowsWritten x1 = rowsWritten x"
  using assms
  by (auto simp: createSheet_def AddSheet_def SetName_def Let_def nth_append split: if_splits)

lemma locate_no_template:
  assumes "\<not> hasTemplate x" and "locate P x beans = Some loc"
  shows "\<not> isValid (llocation loc) \<and> currentSheet (lx loc) = length (workbook x) \<and>
         (\<exists>sh. workbook (lx loc) = workbook x @ [sh] \<and> srows sh = []) \<and>
         templateFile (lx loc) = templateFile x \<and> styleSheet (lx loc) = styleSheet x"
proof -
  from assms(2) obtain ttag flds where
    t: "findTTag (beanStructType beans) = Some ttag" and
    f: "collectExportableFields (beanStructType beans) = Some flds"
    by (auto simp: locate_def split: option.splits prod.splits)
  obtain x0 i where c: "createSheet P x ttag = (x0, i)" by (cases "createSheet P x ttag")
  note cs = createSheet_no_template[OF assms(1) c]
  let ?y1 = "x0\<lparr>currentSheet := i\<rparr>"
  have nt: "\<not> hasTemplate ?y1" using assms(1) cs by (simp add: hasTemplate_def)
  from assms(2) t f c have
    lt: "locateTitles P ?y1 flds (fst (collectTitles flds)) = Some (lx loc, llocation loc)"
    by (auto simp: locate_def split: option.splits prod.splits)
  with nt have "Some (?y1, \<lparr>titledRowIndex = 0, rowsEndIndex = 0, templateCells = [],
                             templateRows = []\<rparr>) = Some (lx loc, llocation loc)"
    by (simp add: locateTitles_def)
  then have "lx loc = ?y1"
    and "llocation loc = \<lparr>titledRowIndex = 0, rowsEndIndex = 0, templateCells = [],
                           templateRows = []\<rparr>"
    by simp_all
  with cs show ?thesis by (auto simp: isValid_def)
qed

lemma frame_take:
  assumes "frame y x'"
  shows "take (currentSheet y) (workbook x') = take (currentSheet y) (workbook y)"
  using assms by (intro nth_equalityI) (auto simp: frame_def)

lemma Write_no_template:
  assumes "\<not> hasTemplate x" and "Write P x beans = Some x'"
  shows "\<not> hasTemplate x' \<and> currentSheet x' = length (workbook x) \<and>
         length (workbook x') = Suc (length (workbook x)) \<and>
         take (length (workbook x)) (workbook x') = workbook x"
proof -
  from assms(2) obtain loc where l: "locate P x beans = Some loc"
    by (auto simp: Write_def split: option.splits)
  note ln = locate_no_template[OF assms(1) l]
  from assms(2) l ln obtain x3 where
    x3: "(if wantsTitle loc then writeTitles P (lfields loc) (ltitles loc) (lx loc)
          else Some (lx loc)) = Some x3"
    and w: "foldOpt (writeRow P (lfields loc)) (beanValues beans) x3 = Some x'"
    by (auto simp: Write_def split: option.splits)
  have f1: "frame (lx loc) x3"
    using x3 writeTitles_frame[of P "lfields loc" "ltitles loc" "lx loc" x3]
    by (auto simp: frame_refl split: if_splits)
  have f2: "frame x3 x'" using writeRows_frame[OF w] by simp
  have fr: "frame (lx loc) x'" using f1 f2 by (rule frame_trans)
  from ln obtain sh where sh: "workbook (lx loc) = workbook x @ [sh]" by auto
  have "take (length (workbook x)) (workbook x') = take (length (workbook x)) (workbook (lx loc))"
    using frame_take[OF fr] ln by simp
  with sh have "take (length (workbook x)) (workbook x') = workbook x" by simp
  moreover from fr ln sh assms(1) have "\<not> hasTemplate x'" "currentSheet x' = length (workbook x)"
    "length (workbook x') = Suc (length (workbook x))"
    by (simp_all add: frame_def hasTemplate_def)
  ultimately show ?thesis by simp
qed

lemma Write_no_template_total:
  assumes "\<not> hasTemplate x" and "recordsOf fs beans"
  shows "Write P x beans \<noteq> None"
proof -
  have bt: "beanStructType beans = StructT fs" using assms(2) by (rule recordsOf_type)
  obtain ttag where t: "findTTag (StructT fs) = Some ttag" by (simp add: findTTag_def)
  obtain flds where f: "collectExportableFields (StructT fs) = Some flds"
    by (simp add: collectExportableFields_def)
  obtain x0 i where c: "createSheet P x ttag = (x0, i)" by (cases "createSheet P x ttag")
  have nt: "\<not> hasTemplate (x0\<lparr>currentSheet := i\<rparr>)"
    using assms(1) createSheet_no_template[OF assms(1) c] by (simp add: hasTemplate_def)
  obtain titles cust where ct: "collectTitles flds = (titles, cust)"
    by (cases "collectTitles flds")
  define loc where "loc = \<lparr>lx = x0\<lparr>currentSheet := i\<rparr>, lttag = ttag, lfields = flds,
      ltitles = titles, lcustomized = cust,
      llocation = \<lparr>titledRowIndex = 0, rowsEndIndex = 0, templateCells = [],
                     templateRows = []\<rparr>\<rparr>"
  have l: "locate P x beans = Some loc"
    using bt t f c nt ct by (simp add: locate_def locateTitles_def loc_def)
  have lf: "lfields loc = flds" and lt: "ltitles loc = fst (collectTitles flds)"
    using ct by (simp_all add: loc_def)
  have nv: "\<not> isValid (llocation loc)" using locate_no_template[OF assms(1) l] by simp
  have "length (lfields loc) \<le> length (ltitles loc)" using lf lt by (simp add: collectTitles_def)
  then obtain x3 where
    x3: "(if wantsTitle loc then writeTitles P (lfields loc) (ltitles loc) (lx loc)
          else Some (lx loc)) = Some x3"
    using writeTitles_total[of "lfields loc" "ltitles loc" P "lx loc"]
    by (cases "wantsTitle loc") auto
  have "foldOpt (writeRow P (lfields loc)) (beanValues beans) x3 \<noteq> None"
  proof (rule foldOpt_total)
    fix v s
    assume "v \<in> set (beanValues beans)"
    then obtain fvs where v: "v = StructV fvs" "map fst fvs = fs"
      using recordsOf_values[OF assms(2)] by blast
    then have "length fvs = length fs" by (metis length_map)
    then show "writeRow P (lfields loc) v s \<noteq> None"
      using v(1) lf collectExportableFields_findex[OF f] by (simp add: writeRow_total)
  qed
  with l x3 nv show ?thesis by (simp add: Write_def)
qed

text \<open>
  C10. On a document without template file, a write of a record or of a slice of
  records returns; every write that returns has added one sheet at the end of the
  workbook, made it the current sheet, and left the sheets the workbook had before as
  they were. So after two writes the workbook has two more sheets, and the second write
  has left the sheet of the first, with every other sheet, unchanged.
\<close>

theorem Write_adds_sheet:
  assumes "\<not> hasTemplate x"
  shows "(recordsOf fs beans \<longrightarrow> Write P x beans \<noteq> None) \<and>
         (\<forall>x'. Write P x beans = Some x' \<longrightarrow>
            \<not> hasTemplate x' \<and> currentSheet x' = length (workbook x) \<and>
            length (workbook x') = Suc (length (workbook x)) \<and>
            take (length (workbook x)) (workbook x') = workbook x \<and>
            (\<forall>x''. Write P x' beans' = Some x'' \<longrightarrow>
               length (workbook x'') = length (workbook x) + 2 \<and>
               currentSheet x'' = Suc (length (workbook x)) \<and>
               take (Suc (length (workbook x))) (workbook x'') = workbook x'))"
proof (intro conjI impI allI)
  assume "recordsOf fs beans"
  with assms show "Write P x beans \<noteq> None" by (rule Write_no_template_total)
next
  fix x'
  assume w: "Write P x beans = Some x'"
  note a = Write_no_template[OF assms w]
  from a show "\<not> hasTemplate x'" "currentSheet x' = length (workbook x)"
    "length (workbook x') = Suc (length (workbook x))"
    "take (length (workbook x)) (workbook x') = workbook x"
    by simp_all
  fix x''
  assume "Write P x' beans' = Some x''"
  with a have b: "currentSheet x'' = length (workbook x')"
    "length (workbook x'') = Suc (length (workbook x'))"
    "take (length (workbook x')) (workbook x'') = workbook x'"
    using Write_no_template[of x' P beans' x''] by simp_all
  with a show "length (workbook x'') = length (workbook x) + 2"
    "currentSheet x'' = Suc (length (workbook x))"
    "take (Suc (length (workbook x))) (workbook x'') = workbook x'"
    by simp_all
qed

theorem Write_adds_sheet_witness:
  "\<not> hasTemplate (New [] None :: (int, nat) xlsx) \<and> recordsOf [fTotal, fNew] exRecords \<and>
   length (workbook (the (Write exPlatform (New [] None) exRecords))) = 1 \<and>
   length (workbook (the (Write exPlatform (the (Write exPlatform (New [] None) exRecords))
                            exRecords))) = 2"
proof -
  let ?x = "New [] None :: (int, nat) xlsx"
  have h: "\<not> hasTemplate ?x" by (simp add: hasTemplate_def New_def)
  have r: "recordsOf [fTotal, fNew] exRecords"
    by (simp add: recordsOf_def exRecords_def exRecord1_def exRecord2_def)
  note t = Write_adds_sheet[OF h, of "[fTotal, fNew]" exRecords exPlatform exRecords]
  from t r obtain x' where x': "Write exPlatform ?x exRecords = Some x'" by auto
  with t have h': "\<not> hasTemplate x'" and n1: "length (workbook x') = 1"
    by (simp_all add: New_def)
  from Write_no_template_total[OF h' r] obtain x'' where
    x'': "Write exPlatform x' exRecords = Some x''" by auto
  with t x' have "length (workbook x'') = 2" by (simp add: New_def)
  with h r x' x'' n1 show ?thesis by simp
qed

subsection \<open>The located template\<close>

lemma createSheet_index:
  assumes "createSheet P x ttag = (x1, i)"
  shows "i < length (workbook x1)"
proof (cases "if hasTemplate x then findIndex (\<lambda>sh. sname sh = tagGet ttag ''sheet'') (workbook x)
              else None")
  case (Some j)
  then have "findIndex (\<lambda>sh. sname sh = tagGet ttag ''sheet'') (workbook x) = Some j"
    by (simp split: if_splits)
  then have "j < length (workbook x)" using findIndex_Some_less by fastforce
  with assms Some show ?thesis by (simp add: createSheet_def Let_def)
next
  case None
  with assms show ?thesis
    by (auto simp: createSheet_def AddSheet_def SetName_def Let_def split: if_splits)
qed

lemma locateTitles_frame:
  "locateTitles P y flds titles = Some (y', l) \<Longrightarrow> frame y y' \<and> rowsWritten y' = rowsWritten y"
  by (auto simp: locateTitles_def Let_def frame_def setCurSheet_def split: if_splits option.splits)

lemma locate_currentSheet:
  assumes "locate P x beans = Some loc"
  shows "currentSheet (lx loc) < length (workbook (lx loc))"
proof -
  from assms obtain ttag flds where
    t: "findTTag (beanStructType beans) = Some ttag" and
    f: "collectExportableFields (beanStructType beans) = Some flds"
    by (auto simp: locate_def split: option.splits prod.splits)
  obtain x0 i where c: "createSheet P x ttag = (x0, i)" by (cases "createSheet P x ttag")
  let ?y1 = "x0\<lparr>currentSheet := i\<rparr>"
  from assms t f c have
    "locateTitles P ?y1 flds (fst (collectTitles flds)) = Some (lx loc, llocation loc)"
    by (auto simp: locate_def split: option.splits prod.splits)
  from locateTitles_frame[OF this] createSheet_index[OF c] show ?thesis
    by (simp add: frame_def)
qed

lemma cellMatch_field:
  assumes "length titles \<le> length flds" and "cellMatch P flds titles c = Some tc"
  shows "structField tc \<in> set flds"
proof -
  from assms(2) obtain i where i: "findIndex (strContains (GetString P c)) titles = Some i"
    and tc: "structField tc = flds ! i"
    by (auto simp: cellMatch_def split: option.splits)
  from findIndex_Some_less[OF i] assms(1) have "i < length flds" by simp
  with tc show ?thesis by simp
qed

lemma map_filter_set: "y \<in> set (List.map_filter f xs) \<Longrightarrow> \<exists>x\<in>set xs. f x = Some y"
  by (induction xs) (auto simp: List.map_filter_simps split: option.splits)

lemma locateTitles_valid:
  assumes "length titles \<le> length flds" and "locateTitles P y flds titles = Some (y', l)"
    and "isValid l"
  shows "0 \<le> titledRowIndex l \<and> (\<forall>tc\<in>set (templateCells l). structField tc \<in> set flds)"
proof -
  let ?rows = "srows (curSheet y)"
  have h: "hasTemplate y" using assms(2,3) by (auto simp: locateTitles_def isValid_def split: if_splits)
  note ft = findTemplateTitledRow_eq[OF assms(1), of P ?rows]
  from assms(2) h ft have
    e: "(titledRowIndex l, templateCells l) =
        (case findIndex (rowMatches P titles) ?rows of
           None \<Rightarrow> (- 1, [])
         | Some i \<Rightarrow> (int i, List.map_filter (cellMatch P flds titles) (rcells (?rows ! i))))"
    by (auto simp: locateTitles_def Let_def split: option.splits)
  with assms(3) obtain i where "titledRowIndex l = int i"
    and "templateCells l = List.map_filter (cellMatch P flds titles) (rcells (?rows ! i))"
    by (cases "findIndex (rowMatches P titles) ?rows") (auto simp: isValid_def)
  then show ?thesis
    using cellMatch_field[OF assms(1)] by (auto dest!: map_filter_set)
qed


lemma locate_valid:
  assumes "locate P x beans = Some loc" and "isValid (llocation loc)"
  shows "0 \<le> titledRowIndex (llocation loc) \<and>
         (\<forall>tc\<in>set (templateCells (llocation loc)). structField tc \<in> set (lfields loc))"
proof -
  from locate_locateTitles[OF assms(1)] obtain y1 where
    "length (ltitles loc) \<le> length (lfields loc)"
    "locateTitles P y1 (lfields loc) (ltitles loc) = Some (lx loc, llocation loc)"
    by auto
  then show ?thesis using assms(2) by (rule locateTitles_valid)
qed

subsection \<open>The layout after a template write\<close>

lemma curSheet_setCurSheet:
  "currentSheet x < length (workbook x) \<Longrightarrow> curSheet (setCurSheet sh x) = sh"
  by (simp add: curSheet_def setCurSheet_def)

lemma removeTempleRows_eq:
  assumes "templateRows l \<noteq> []" and "0 \<le> titledRowIndex l + 1 + rowsWritten y"
  shows "removeTempleRows l y =
           Some (if titledRowIndex l + 1 + rowsWritten y < int (length (srows (curSheet y)))
                 then setCurSheet ((curSheet y)\<lparr>srows :=
                        take (nat (titledRowIndex l + 1 + rowsWritten y)) (srows (curSheet y))\<rparr>) y
                 else y)"
  using assms by (simp add: removeTempleRows_def Let_def)

text \<open>
  C4. A template write whose location has template rows ends by cutting the rows of the
  sheet down to the first \<open>titledRowIndex + 1 + rowsWritten\<close>, where
  \<open>rowsWritten\<close> is the number of records of the call: a sheet with more rows is
  left with exactly that many, a sheet with no more is left as it is (\<open>take\<close> is
  the identity on it), and nothing else of the sheet changes. With no record, the rows
  left are the title row and those above it.
\<close>

theorem Write_truncates_rows:
  assumes "locate P x beans = Some loc" and "isValid (llocation loc)"
    and "templateRows (llocation loc) \<noteq> []"
    and "(if wantsTitle loc then writeTitles P (lfields loc) (ltitles loc) (lx loc)
          else Some (lx loc)) = Some x3"
    and "foldOpt (writeTemplateRow P (llocation loc)) (beanValues beans)
           (x3\<lparr>rowsWritten := 0\<rparr>) = Some x4"
  shows "rowsWritten x4 = int (length (beanValues beans)) \<and>
         (\<exists>x'. Write P x beans = Some x' \<and> frame x4 x' \<and> rowsWritten x' = rowsWritten x4 \<and>
               sname (curSheet x') = sname (curSheet x4) \<and>
               srows (curSheet x') =
                 take (nat (titledRowIndex (llocation loc) + 1 + int (length (beanValues beans))))
                   (srows (curSheet x4)) \<and>
               length (srows (curSheet x')) =
                 min (length (srows (curSheet x4)))
                   (nat (titledRowIndex (llocation loc) + 1 + int (length (beanValues beans)))))"
proof -
  let ?l = "llocation loc"
  let ?n = "int (length (beanValues beans))"
  have n: "rowsWritten x4 = ?n" and f4: "frame (x3\<lparr>rowsWritten := 0\<rparr>) x4"
    using writeTemplateRows_frame[OF assms(5)] by simp_all
  have f3: "frame (lx loc) x3"
    using assms(4) writeTitles_frame[of P "lfields loc" "ltitles loc" "lx loc" x3]
    by (auto simp: frame_refl split: if_splits)
  have cs: "currentSheet x4 < length (workbook x4)"
    using locate_currentSheet[OF assms(1)] f3 f4 by (simp add: frame_def)
  have t: "0 \<le> titledRowIndex ?l" using locate_valid[OF assms(1,2)] by simp
  then have e: "0 \<le> titledRowIndex ?l + 1 + rowsWritten x4" using n by simp
  note r = removeTempleRows_eq[OF assms(3) e]
  let ?x' = "if titledRowIndex ?l + 1 + rowsWritten x4 < int (length (srows (curSheet x4)))
             then setCurSheet ((curSheet x4)\<lparr>srows :=
                    take (nat (titledRowIndex ?l + 1 + rowsWritten x4)) (srows (curSheet x4))\<rparr>) x4
             else x4"
  have w: "Write P x beans = Some ?x'"
    using assms(1,2,4,5) r by (simp add: Write_def)
  have "frame x4 ?x'" by (simp add: frame_refl frame_setCurSheet)
  moreover have "rowsWritten ?x' = rowsWritten x4" by (simp add: setCurSheet_def)
  moreover have "sname (curSheet ?x') = sname (curSheet x4)"
    using cs by (simp add: curSheet_setCurSheet)
  moreover have s: "srows (curSheet ?x') =
      take (nat (titledRowIndex ?l + 1 + ?n)) (srows (curSheet x4))"
    using cs n by (simp add: curSheet_setCurSheet)
  moreover have "length (srows (curSheet ?x')) =
      min (length (srows (curSheet x4))) (nat (titledRowIndex ?l + 1 + ?n))"
    unfolding s by simp
  ultimately show ?thesis using n w by blast
qed

lemmas template_eval =
  Write_def locate_def beanStructType_def findTTag_def createSheet_def New_def
  hasTemplate_def AddSheet_def tagGet_def collectExportableFields_def collectTitles_def
  locateTitles_def wantsTitle_def isValid_def beanValues_def curSheet_def setCurSheet_def
  findTemplateTitledRow_def findTemplateRows_def GetString_def textCell_def
  carriesMarker_def rowCell_def ensureCell_def enumerate_eq_zip fTotal_def fNew_def

theorem Write_truncates_rows_witness:
  "map rid (srows (curSheet (the (Write exPlatform templateXlsx noRecords)))) = [0]"
proof -
  let ?loc = "the (locate exPlatform templateXlsx noRecords)"
  have h1: "locate exPlatform templateXlsx noRecords = Some ?loc"
    by (simp add: template_eval templateXlsx_def templateRowsEx_def noRecords_def)
  have h2: "isValid (llocation ?loc)"
    by (simp add: template_eval templateXlsx_def templateRowsEx_def noRecords_def)
  have h3: "templateRows (llocation ?loc) \<noteq> []"
    by (simp add: template_eval templateXlsx_def templateRowsEx_def noRecords_def)
  have h4: "(if wantsTitle ?loc then writeTitles exPlatform (lfields ?loc) (ltitles ?loc) (lx ?loc)
          else Some (lx ?loc)) = Some (lx ?loc)"
    by (simp add: template_eval templateXlsx_def templateRowsEx_def noRecords_def)
  have h5: "foldOpt (writeTemplateRow exPlatform (llocation ?loc)) (beanValues noRecords)
           ((lx ?loc)\<lparr>rowsWritten := 0\<rparr>) = Some ((lx ?loc)\<lparr>rowsWritten := 0\<rparr>)"
    by (simp add: beanValues_def noRecords_def)
  have t: "titledRowIndex (llocation ?loc) = 0"
    by (simp add: template_eval templateXlsx_def templateRowsEx_def noRecords_def)
  have r: "map rid (srows (curSheet ((lx ?loc)\<lparr>rowsWritten := 0\<rparr>))) = [0, 1, 2]"
    by (simp add: template_eval templateXlsx_def templateRowsEx_def noRecords_def)
  from Write_truncates_rows[OF h1 h2 h3 h4 h5] t obtain x' where
    "Write exPlatform templateXlsx noRecords = Some x'"
    "srows (curSheet x') = take 1 (srows (curSheet ((lx ?loc)\<lparr>rowsWritten := 0\<rparr>)))"
    by (auto simp: beanValues_def noRecords_def)
  then have "map rid (srows (curSheet (the (Write exPlatform templateXlsx noRecords)))) =
             take 1 (map rid (srows (curSheet ((lx ?loc)\<lparr>rowsWritten := 0\<rparr>))))"
    by (simp add: take_map)
  with r show ?thesis by simp
qed

subsection \<open>Storing a field value\<close>







subsection \<open>Rows appended without a template\<close>










subsection \<open>The title row\<close>








subsection \<open>Copying styles\<close>






subsection \<open>Cells of a written row\<close>








lemma written_refl: "written i (\<lambda>col old. old) r r"
  by (simp add: written_def)

lemma written_trans:
  "written i f r r1 \<Longrightarrow> written i g r1 r2 \<Longrightarrow> written i (\<lambda>col old. g col (f col old)) r r2"
  by (simp add: written_def)













subsection \<open>Placement of the records of a template write\<close>

lemma foldOpt_append:
  "foldOpt f (xs @ ys) s = (case foldOpt f xs s of None \<Rightarrow> None | Some t \<Rightarrow> foldOpt f ys t)"
  by (induction xs arbitrary: s) (auto split: option.splits)






end
